theory Spec2Isabelle
  imports Main "HOL-Library.Multiset"
begin

section \<open>Text helpers of the Python runtime\<close>

text \<open>
  The normaliser (\<^verbatim>\<open>src/Database/normalize_data.py\<close>) reads every cell with
  \<^verbatim>\<open>row.get(col, '').strip()\<close>. Strings are modelled as \<open>string\<close> (8-bit characters);
  the whitespace and case tables below are the ASCII part of Python's \<^verbatim>\<open>str.isspace\<close>
  and \<^verbatim>\<open>str.upper\<close>.
\<close>

datatype py_error = ValueError | TypeError | AttributeError

definition is_space :: "char \<Rightarrow> bool" where
  "is_space c = (let n = (of_char c :: nat) in (9 \<le> n \<and> n \<le> 13) \<or> (28 \<le> n \<and> n \<le> 32))"

definition strip :: "string \<Rightarrow> string" where
  "strip s = rev (dropWhile is_space (rev (dropWhile is_space s)))"

definition upper_char :: "char \<Rightarrow> char" where
  "upper_char c = (let n = (of_char c :: nat) in if 97 \<le> n \<and> n \<le> 122 then char_of (n - 32) else c)"

definition upper :: "string \<Rightarrow> string" where
  "upper s = map upper_char s"

text \<open>\<^verbatim>\<open>x or None\<close> on a string: the empty string is falsy.\<close>

definition or_None :: "string \<Rightarrow> string option" where
  "or_None s = (if s = [] then None else Some s)"

text \<open>Truthiness of a value that is \<^verbatim>\<open>None\<close> or a string.\<close>

definition truthy_str :: "string option \<Rightarrow> bool" where
  "truthy_str v = (case v of None \<Rightarrow> False | Some s \<Rightarrow> s \<noteq> [])"

text \<open>
  \<^verbatim>\<open>row.get(col, '').strip()\<close> on a cell that \<^verbatim>\<open>csv.DictReader\<close> may have left
  \<^verbatim>\<open>None\<close> (a line with fewer cells than the header): \<^verbatim>\<open>None\<close> has no
  \<^verbatim>\<open>strip\<close>, and the call raises \<^verbatim>\<open>AttributeError\<close>.
\<close>

definition cell_strip :: "string option \<Rightarrow> py_error + string" where
  "cell_strip c = (case c of None \<Rightarrow> Inl AttributeError | Some s \<Rightarrow> Inr (strip s))"

text \<open>The text of a cell, empty for a missing cell.\<close>

definition cell_text :: "string option \<Rightarrow> string" where
  "cell_text c = (case c of None \<Rightarrow> [] | Some s \<Rightarrow> s)"

section \<open>Validation dates (lines 83-94)\<close>

definition is_digit :: "char \<Rightarrow> bool" where
  "is_digit c = (let n = (of_char c :: nat) in 48 \<le> n \<and> n \<le> 57)"

definition digit_val :: "char \<Rightarrow> nat" where
  "digit_val c = (of_char c :: nat) - 48"

definition num_val :: "string \<Rightarrow> nat" where
  "num_val s = foldl (\<lambda>a c. 10 * a + digit_val c) 0 s"

text \<open>
  The directives of \<^verbatim>\<open>datetime.strptime\<close> are regular expressions in CPython's
  \<^verbatim>\<open>_strptime.py\<close>: \<^verbatim>\<open>%d\<close> is \<^verbatim>\<open>3[0-1]|[1-2]\d|0[1-9]|[1-9]| [1-9]\<close>,
  \<^verbatim>\<open>%m\<close> is \<^verbatim>\<open>1[0-2]|0[1-9]|[1-9]\<close> and \<^verbatim>\<open>%Y\<close> is \<^verbatim>\<open>\d\d\d\d\<close>.
  None of them matches a slash and each is followed by a literal slash or the end of the
  text, so the day is the text before the first slash, the month the text between the
  first two slashes, and the year the rest.
\<close>

definition day_directive :: "string \<Rightarrow> bool" where
  "day_directive t = (case t of
       [a] \<Rightarrow> is_digit a \<and> a \<noteq> CHR ''0''
     | [a, b] \<Rightarrow> (a = CHR ''3'' \<and> (b = CHR ''0'' \<or> b = CHR ''1''))
               \<or> ((a = CHR ''1'' \<or> a = CHR ''2'') \<and> is_digit b)
               \<or> (a = CHR ''0'' \<and> is_digit b \<and> b \<noteq> CHR ''0'')
               \<or> (a = CHR '' '' \<and> is_digit b \<and> b \<noteq> CHR ''0'')
     | _ \<Rightarrow> False)"

definition month_directive :: "string \<Rightarrow> bool" where
  "month_directive t = (case t of
       [a] \<Rightarrow> is_digit a \<and> a \<noteq> CHR ''0''
     | [a, b] \<Rightarrow> (a = CHR ''1'' \<and> (b = CHR ''0'' \<or> b = CHR ''1'' \<or> b = CHR ''2''))
               \<or> (a = CHR ''0'' \<and> is_digit b \<and> b \<noteq> CHR ''0'')
     | _ \<Rightarrow> False)"

definition year_directive :: "string \<Rightarrow> bool" where
  "year_directive t = (length t = 4 \<and> list_all is_digit t)"

definition is_leap :: "nat \<Rightarrow> bool" where
  "is_leap y = (y mod 4 = 0 \<and> (y mod 100 \<noteq> 0 \<or> y mod 400 = 0))"

definition days_in_month :: "nat \<Rightarrow> nat \<Rightarrow> nat" where
  "days_in_month y m =
     (if m = 2 then (if is_leap y then 29 else 28)
      else if m = 4 \<or> m = 6 \<or> m = 9 \<or> m = 11 then 30 else 31)"

text \<open>
  \<^verbatim>\<open>datetime.strptime(s, '%d/%m/%Y')\<close>: the date as (year, month, day), or
  \<^verbatim>\<open>ValueError\<close> when the text does not match the format, when text remains after the
  year, or when the calendar has no such day (year 0 included).
\<close>

definition strptime_dmy :: "string \<Rightarrow> py_error + (nat \<times> nat \<times> nat)" where
  "strptime_dmy s =
     (let d = takeWhile (\<lambda>c. c \<noteq> CHR ''/'') s;
          r1 = drop (Suc (length d)) s;
          m = takeWhile (\<lambda>c. c \<noteq> CHR ''/'') r1;
          y = drop (Suc (length m)) r1
      in if length d < length s \<and> length m < length r1
            \<and> day_directive d \<and> month_directive m \<and> year_directive y
         then (let dd = num_val (dropWhile (\<lambda>c. c = CHR '' '') d);
                   mm = num_val m; yy = num_val y
               in if 1 \<le> yy \<and> 1 \<le> dd \<and> dd \<le> days_in_month yy mm
                  then Inr (yy, mm, dd) else Inl ValueError)
         else Inl ValueError)"

definition digit_char :: "nat \<Rightarrow> char" where
  "digit_char n = char_of (48 + n mod 10)"

definition pad2 :: "nat \<Rightarrow> string" where
  "pad2 n = [digit_char (n div 10), digit_char n]"

definition pad4 :: "nat \<Rightarrow> string" where
  "pad4 n = [digit_char (n div 1000), digit_char (n div 100), digit_char (n div 10), digit_char n]"

text \<open>
  The directive \<^verbatim>\<open>%Y\<close> of \<^verbatim>\<open>strftime\<close> on a year of at most four digits (all that
  \<^verbatim>\<open>strptime\<close> yields for \<^verbatim>\<open>%Y\<close>), as CPython up to 3.12 prints it with the C
  library of Linux: the decimal digits of the year, without padding. From the year 1000
  on these are the four digits of \<open>pad4\<close>, on every platform.
\<close>

definition year_text :: "nat \<Rightarrow> string" where
  "year_text y =
     (if y < 10 then [digit_char y]
      else if y < 100 then [digit_char (y div 10), digit_char y]
      else if y < 1000 then [digit_char (y div 100), digit_char (y div 10), digit_char y]
      else pad4 y)"

text \<open>\<^verbatim>\<open>.strftime('%Y-%m-%d')\<close> on a date that \<^verbatim>\<open>strptime\<close> has produced.\<close>

definition strftime_ymd :: "nat \<times> nat \<times> nat \<Rightarrow> string" where
  "strftime_ymd t = (case t of (y, m, d) \<Rightarrow> year_text y @ ''-'' @ pad2 m @ ''-'' @ pad2 d)"

text \<open>
  Lines 84-94. The argument is the cell as \<^verbatim>\<open>row.get\<close> returns it; the result is the
  value left in \<^verbatim>\<open>validation_date\<close>, or the exception that ends the iteration. Line
  85 strips the cell before the \<^verbatim>\<open>try\<close> block, so its \<^verbatim>\<open>AttributeError\<close> on a
  missing cell is not handled; the handler of the block catches \<^verbatim>\<open>ValueError\<close> only.
\<close>

definition parse_validation_date :: "string option \<Rightarrow> py_error + string option" where
  "parse_validation_date cell =
     (case cell_strip cell of
        Inl e \<Rightarrow> Inl e
      | Inr date_str \<Rightarrow>
          if date_str \<noteq> []
          then (case (if CHR ''/'' \<in> set date_str
                      then (case strptime_dmy date_str of
                              Inl e \<Rightarrow> Inl e
                            | Inr t \<Rightarrow> Inr (Some (strftime_ymd t)))
                      else Inr (Some date_str)) of
                  Inl ValueError \<Rightarrow> Inr None
                | Inl e \<Rightarrow> Inl e
                | Inr v \<Rightarrow> Inr v)
          else Inr None)"

section \<open>Rows, entities and the state of the pass\<close>

text \<open>
  A row is what \<^verbatim>\<open>csv.DictReader\<close> yields for a line: one cell per column that
  \<^verbatim>\<open>process_csv\<close> reads, with the empty text when the header lacks the column (the
  default of \<^verbatim>\<open>row.get\<close>). For a line with fewer cells than the header the reader
  gives \<^verbatim>\<open>None\<close> for the cells that are missing. The cells of the validation date
  and of the two coordinates (which the geocoder appends at the end of each line) are
  modelled with this case: \<open>None\<close>, or \<open>Some\<close> text. The other cells are modelled as
  texts, so a row of the model has these cells present. The grouped detailed-item column
  is looked up under two header names, with and without a leading byte-order mark.
\<close>

record row =
  col_Organisation_ID :: string
  col_Item_ID :: string
  col_Item_Name :: string
  col_Detailed_Item_ID_bom :: string
  col_Detailed_Item_ID :: string
  col_Detailed_Item_Name :: string
  col_Sector_Mapping_ID :: string
  col_Sector_Name :: string
  col_Validation_Date :: "string option"
  col_Latitude :: "string option"
  col_Longitude :: "string option"
  col_Organisation_Name :: string
  col_Billing_Street :: string
  col_Billing_City :: string
  col_Billing_State_Province :: string
  col_Billing_Zip_Postal_Code :: string
  col_Formatted_Address :: string
  col_Organisation_Capability :: string
  col_Capability_Type :: string

text \<open>The value stored under a key of \<^verbatim>\<open>self.detailed_items\<close>.\<close>

record detailed_item =
  detailedItemName :: string
  di_itemId :: "string option"

text \<open>
  The value stored under a key of \<^verbatim>\<open>self.organisations\<close>. The type \<open>'f\<close> is Python's
  \<^verbatim>\<open>float\<close>.
\<close>

record 'f organisation =
  organisationId :: string
  organisationName :: "string option"
  billingStreet :: "string option"
  billingCity :: "string option"
  billingStateProvince :: "string option"
  billingZipPostalCode :: "string option"
  formattedAddress :: "string option"
  latitude :: "'f option"
  longitude :: "'f option"

text \<open>
  An element of \<^verbatim>\<open>self.capabilities\<close>; the keys \<^verbatim>\<open>organisationId\<close>, \<^verbatim>\<open>itemId\<close>,
  \<^verbatim>\<open>detailedItemId\<close> and \<^verbatim>\<open>sectorMappingId\<close> carry the prefix \<open>cap_\<close> here.
\<close>

record capability =
  organisationCapability :: string
  cap_organisationId :: string
  cap_itemId :: "string option"
  cap_detailedItemId :: "string option"
  capabilityType :: "string option"
  validationDate :: "string option"
  cap_sectorMappingId :: "string option"

text \<open>
  The five collections of \<^verbatim>\<open>DataNormalizer\<close> and the two locals of \<^verbatim>\<open>process_csv\<close> that
  live across the iterations of its loop (lines 15-19 and 27-28).
\<close>

record 'f state =
  items :: "string \<rightharpoonup> string"
  detailed_items :: "string \<rightharpoonup> detailed_item"
  sectors :: "string \<rightharpoonup> string"
  organisations :: "string \<rightharpoonup> 'f organisation"
  capabilities :: "capability list"
  current_detailed_item_id :: "string option"
  current_sector_mapping_id :: "string option"

definition init_state :: "'f state" where
  "init_state = \<lparr> items = Map.empty, detailed_items = Map.empty, sectors = Map.empty,
                  organisations = Map.empty, capabilities = [],
                  current_detailed_item_id = None, current_sector_mapping_id = None \<rparr>"

section \<open>The body of the loop of \<open>process_csv\<close>\<close>

text \<open>Line 35: the rows that the loop skips.\<close>

definition skipped :: "row \<Rightarrow> bool" where
  "skipped r = (col_Organisation_ID r = [] \<or> strip (col_Organisation_ID r) = [])"

text \<open>Lines 38-42.\<close>

definition store_item :: "'f state \<Rightarrow> row \<Rightarrow> 'f state" where
  "store_item st r =
     (let item_id = strip (col_Item_ID r);
          item_name = strip (col_Item_Name r)
      in if item_id \<noteq> [] \<and> item_name \<noteq> []
         then st\<lparr>items := (items st)(item_id \<mapsto> item_name)\<rparr>
         else st)"

text \<open>Lines 45-46: \<^verbatim>\<open>row.get(bom_name, '') or row.get(name, '')\<close>, stripped.\<close>

definition detailed_item_id_raw :: "row \<Rightarrow> string" where
  "detailed_item_id_raw r =
     strip (if col_Detailed_Item_ID_bom r \<noteq> [] then col_Detailed_Item_ID_bom r
            else col_Detailed_Item_ID r)"

text \<open>
  Lines 47-57. After it the local \<^verbatim>\<open>detailed_item_id\<close> of line 60 is the slot
  \<open>current_detailed_item_id\<close> of the result.
\<close>

definition group_detailed_item :: "'f state \<Rightarrow> row \<Rightarrow> 'f state" where
  "group_detailed_item st r =
     (let item_id = strip (col_Item_ID r);
          raw = detailed_item_id_raw r;
          detailed_item_name = strip (col_Detailed_Item_Name r)
      in if raw \<noteq> [] \<and> raw \<noteq> ''Subtotal''
         then (let st1 = st\<lparr>current_detailed_item_id := Some raw\<rparr>
               in if detailed_item_name \<noteq> []
                  then st1\<lparr>detailed_items := (detailed_items st1)(raw \<mapsto>
                         \<lparr> detailedItemName = detailed_item_name,
                           di_itemId = (if item_id \<noteq> [] then Some item_id else None) \<rparr>)\<rparr>
                  else st1)
         else st)"

text \<open>Lines 63-72: the local \<^verbatim>\<open>sector_mapping_id\<close>.\<close>

definition sector_mapping_id :: "'f state \<Rightarrow> row \<Rightarrow> string option" where
  "sector_mapping_id st r =
     (let raw = strip (col_Sector_Mapping_ID r)
      in if raw \<noteq> [] then Some raw else current_sector_mapping_id st)"

text \<open>Lines 63-76.\<close>

definition group_sector :: "'f state \<Rightarrow> row \<Rightarrow> 'f state" where
  "group_sector st r =
     (let raw = strip (col_Sector_Mapping_ID r);
          sector_name = strip (col_Sector_Name r);
          sid = sector_mapping_id st r;
          st1 = (if raw \<noteq> [] then st\<lparr>current_sector_mapping_id := Some raw\<rparr> else st)
      in case sid of
           None \<Rightarrow> st1
         | Some k \<Rightarrow> if k \<noteq> [] \<and> sector_name \<noteq> []
                     then st1\<lparr>sectors := (sectors st1)(k \<mapsto> sector_name)\<rparr>
                     else st1)"

text \<open>
  Lines 96-107. \<open>F\<close> is Python's \<^verbatim>\<open>float\<close> on a text: the number, or the exception it
  raises. One handler, for \<^verbatim>\<open>ValueError\<close> and \<^verbatim>\<open>TypeError\<close>, encloses the reading of
  both cells (lines 100-101) and both conversions; the assignments made before the
  exception stay, and any other exception leaves the block and ends the iteration.
\<close>

definition parse_coordinates ::
  "(string \<Rightarrow> py_error + 'f) \<Rightarrow> row \<Rightarrow> py_error + ('f option \<times> 'f option)" where
  "parse_coordinates F r =
     (let handler = (\<lambda>e lat. if e = ValueError \<or> e = TypeError then Inr (lat, None) else Inl e)
      in case cell_strip (col_Latitude r) of
           Inl e \<Rightarrow> handler e None
         | Inr lat_str \<Rightarrow>
        (case cell_strip (col_Longitude r) of
           Inl e \<Rightarrow> handler e None
         | Inr lon_str \<Rightarrow>
        (case (if lat_str \<noteq> [] then map_sum id Some (F lat_str) else Inr None) of
           Inl e \<Rightarrow> handler e None
         | Inr lat \<Rightarrow>
             (case (if lon_str \<noteq> [] then map_sum id Some (F lon_str) else Inr None) of
                Inl e \<Rightarrow> handler e lat
              | Inr lon \<Rightarrow> Inr (lat, lon)))))"

text \<open>Truthiness of a value that is \<^verbatim>\<open>None\<close> or a float; \<open>T\<close> is the truthiness of a float.\<close>

definition truthy_float :: "('f \<Rightarrow> bool) \<Rightarrow> 'f option \<Rightarrow> bool" where
  "truthy_float T v = (case v of None \<Rightarrow> False | Some x \<Rightarrow> T x)"

text \<open>Lines 112-122.\<close>

definition new_organisation :: "row \<Rightarrow> string \<Rightarrow> 'f option \<Rightarrow> 'f option \<Rightarrow> 'f organisation" where
  "new_organisation r organisation_id lat lon =
     \<lparr> organisationId = organisation_id,
       organisationName = or_None (strip (col_Organisation_Name r)),
       billingStreet = or_None (strip (col_Billing_Street r)),
       billingCity = or_None (strip (col_Billing_City r)),
       billingStateProvince = or_None (strip (col_Billing_State_Province r)),
       billingZipPostalCode = or_None (strip (col_Billing_Zip_Postal_Code r)),
       formattedAddress = or_None (strip (col_Formatted_Address r)),
       latitude = lat,
       longitude = lon \<rparr>"

text \<open>Lines 126-144; each test reads the field it may assign and no other.\<close>

definition update_organisation ::
  "('f \<Rightarrow> bool) \<Rightarrow> 'f organisation \<Rightarrow> row \<Rightarrow> 'f option \<Rightarrow> 'f option \<Rightarrow> 'f organisation" where
  "update_organisation T existing r lat lon =
     existing\<lparr>
       organisationName :=
         (if \<not> truthy_str (organisationName existing)
          then or_None (strip (col_Organisation_Name r)) else organisationName existing),
       billingStreet :=
         (if \<not> truthy_str (billingStreet existing)
          then or_None (strip (col_Billing_Street r)) else billingStreet existing),
       billingCity :=
         (if \<not> truthy_str (billingCity existing)
          then or_None (strip (col_Billing_City r)) else billingCity existing),
       billingStateProvince :=
         (if \<not> truthy_str (billingStateProvince existing)
          then or_None (strip (col_Billing_State_Province r)) else billingStateProvince existing),
       billingZipPostalCode :=
         (if \<not> truthy_str (billingZipPostalCode existing)
          then or_None (strip (col_Billing_Zip_Postal_Code r)) else billingZipPostalCode existing),
       formattedAddress :=
         (if \<not> truthy_str (formattedAddress existing)
          then or_None (strip (col_Formatted_Address r)) else formattedAddress existing),
       latitude :=
         (if \<not> truthy_float T (latitude existing) \<and> truthy_float T lat
          then lat else latitude existing),
       longitude :=
         (if \<not> truthy_float T (longitude existing) \<and> truthy_float T lon
          then lon else longitude existing) \<rparr>"

text \<open>Lines 79-81: the normalised identifier of a row.\<close>

definition organisation_id :: "row \<Rightarrow> string" where
  "organisation_id r =
     (let organisation_id_raw = strip (col_Organisation_ID r)
      in if organisation_id_raw \<noteq> [] then upper organisation_id_raw else [])"

text \<open>Lines 109-144.\<close>

definition store_organisation ::
  "('f \<Rightarrow> bool) \<Rightarrow> 'f state \<Rightarrow> row \<Rightarrow> 'f option \<Rightarrow> 'f option \<Rightarrow> 'f state" where
  "store_organisation T st r lat lon =
     (case organisations st (organisation_id r) of
        None \<Rightarrow> st\<lparr>organisations := (organisations st)(organisation_id r \<mapsto>
                   new_organisation r (organisation_id r) lat lon)\<rparr>
      | Some existing \<Rightarrow> st\<lparr>organisations := (organisations st)(organisation_id r \<mapsto>
                   update_organisation T existing r lat lon)\<rparr>)"

text \<open>
  Lines 146-158, with the value of \<^verbatim>\<open>validation_date\<close> and of the locals
  \<^verbatim>\<open>detailed_item_id\<close> and \<^verbatim>\<open>sector_mapping_id\<close>.
\<close>

definition store_capability ::
  "'f state \<Rightarrow> row \<Rightarrow> string option \<Rightarrow> string option \<Rightarrow> string option \<Rightarrow> 'f state" where
  "store_capability st r validation_date did sid =
     (let organisation_capability = strip (col_Organisation_Capability r);
          item_id = strip (col_Item_ID r)
      in if organisation_capability \<noteq> []
         then st\<lparr>capabilities := capabilities st @
                [\<lparr> organisationCapability = organisation_capability,
                   cap_organisationId = organisation_id r,
                   cap_itemId = (if item_id \<noteq> [] then Some item_id else None),
                   cap_detailedItemId = (if truthy_str did then did else None),
                   capabilityType = or_None (strip (col_Capability_Type r)),
                   validationDate = validation_date,
                   cap_sectorMappingId = (if truthy_str sid then sid else None) \<rparr>]\<rparr>
         else st)"

text \<open>
  One iteration of the loop (lines 33-158): the state after the row, or the exception
  that leaves the loop and ends the pass.
\<close>

definition process_row ::
  "(string \<Rightarrow> py_error + 'f) \<Rightarrow> ('f \<Rightarrow> bool) \<Rightarrow> 'f state \<Rightarrow> row \<Rightarrow> py_error + 'f state" where
  "process_row F T st r =
     (if skipped r then Inr st
      else
        (let st1 = store_item st r;
             st2 = group_detailed_item st1 r;
             detailed_item_id = current_detailed_item_id st2;
             sid = sector_mapping_id st2 r;
             st3 = group_sector st2 r
         in if organisation_id r \<noteq> []
            then (case parse_validation_date (col_Validation_Date r) of
                    Inl e \<Rightarrow> Inl e
                  | Inr validation_date \<Rightarrow>
                     (case parse_coordinates F r of
                        Inl e \<Rightarrow> Inl e
                      | Inr (lat, lon) \<Rightarrow>
                          Inr (store_capability (store_organisation T st3 r lat lon) r
                                 validation_date detailed_item_id sid)))
            else Inr st3))"

text \<open>The loop over the rows of the file, in file order.\<close>

fun process_rows ::
  "(string \<Rightarrow> py_error + 'f) \<Rightarrow> ('f \<Rightarrow> bool) \<Rightarrow> 'f state \<Rightarrow> row list \<Rightarrow> py_error + 'f state" where
  "process_rows F T st [] = Inr st"
| "process_rows F T st (r # rs) =
     (case process_row F T st r of
        Inl e \<Rightarrow> Inl e
      | Inr st' \<Rightarrow> process_rows F T st' rs)"

text \<open>\<^verbatim>\<open>process_csv\<close> on a fresh \<^verbatim>\<open>DataNormalizer\<close>, given the rows of the input file.\<close>

definition process_csv ::
  "(string \<Rightarrow> py_error + 'f) \<Rightarrow> ('f \<Rightarrow> bool) \<Rightarrow> row list \<Rightarrow> py_error + 'f state" where
  "process_csv F T rs = process_rows F T init_state rs"

text \<open>
  A stand-in for \<^verbatim>\<open>float\<close> at concrete inputs, with values in \<open>int\<close>: a non-empty text
  of ASCII digits converts to its number, as \<^verbatim>\<open>float\<close> converts it, and any other text
  is refused here. Only texts of digits, and texts that \<^verbatim>\<open>float\<close> refuses too, are
  given to it. A float is truthy when it is not zero.
\<close>

definition digits_float :: "string \<Rightarrow> py_error + int" where
  "digits_float s = (if s \<noteq> [] \<and> list_all is_digit s then Inr (int (num_val s)) else Inl ValueError)"

definition nonzero :: "int \<Rightarrow> bool" where
  "nonzero x = (x \<noteq> 0)"

text \<open>The row whose cells are all present and empty.\<close>

definition empty_row :: row where
  "empty_row = \<lparr> col_Organisation_ID = [], col_Item_ID = [], col_Item_Name = [],
     col_Detailed_Item_ID_bom = [], col_Detailed_Item_ID = [], col_Detailed_Item_Name = [],
     col_Sector_Mapping_ID = [], col_Sector_Name = [], col_Validation_Date = Some [],
     col_Latitude = Some [], col_Longitude = Some [], col_Organisation_Name = [],
     col_Billing_Street = [], col_Billing_City = [], col_Billing_State_Province = [],
     col_Billing_Zip_Postal_Code = [], col_Formatted_Address = [],
     col_Organisation_Capability = [], col_Capability_Type = [] \<rparr>"

section \<open>Predicates of the properties and rows used at concrete inputs\<close>

definition row_bad_latitude :: row where
  "row_bad_latitude = empty_row\<lparr>col_Organisation_ID := ''x1'', col_Latitude := Some ''abc'', col_Longitude := Some ''5''\<rparr>"

text \<open>Keys and stored identifiers of the organisations, and the identifiers of the capabilities.\<close>

definition org_keys_ok :: "'f state \<Rightarrow> bool" where
  "org_keys_ok st \<longleftrightarrow>
     (\<forall>k org. organisations st k = Some org \<longrightarrow> upper k = k \<and> organisationId org = k)
     \<and> (\<forall>c \<in> set (capabilities st). upper (cap_organisationId c) = cap_organisationId c
           \<and> cap_organisationId c \<in> dom (organisations st))"

definition row_acme_lower :: row where
  "row_acme_lower = empty_row\<lparr>col_Organisation_ID := ''acme'', col_Organisation_Capability := ''welding''\<rparr>"

definition row_acme_mixed :: row where
  "row_acme_mixed = empty_row\<lparr>col_Organisation_ID := '' Acme '', col_Organisation_Capability := ''casting''\<rparr>"

definition row_subtotal :: row where
  "row_subtotal = empty_row\<lparr>col_Organisation_ID := ''x1'', col_Detailed_Item_ID := ''Subtotal'',
     col_Sector_Mapping_ID := ''S2'', col_Organisation_Capability := ''welding''\<rparr>"

definition row_subtotal_bare :: row where
  "row_subtotal_bare = empty_row\<lparr>col_Organisation_ID := ''x1'', col_Detailed_Item_ID := ''Subtotal''\<rparr>"

text \<open>
  The words of the specification for a grouped column: a cell opens a group when it is
  neither blank nor the summary sentinel.
\<close>

definition opens_group :: "string \<Rightarrow> bool" where
  "opens_group v = (v \<noteq> [] \<and> v \<noteq> ''Subtotal'')"

definition non_blank :: "string \<Rightarrow> bool" where
  "non_blank v = (v \<noteq> [])"

text \<open>
  The words of the specification for carry-forward: the cell of the nearest preceding
  processed row whose cell counts (under \<open>P\<close>), absent when there is no such row.
\<close>

definition nearest_preceding :: "(row \<Rightarrow> string) \<Rightarrow> (string \<Rightarrow> bool) \<Rightarrow> row list \<Rightarrow> string option" where
  "nearest_preceding cell P rs =
     (case filter (\<lambda>r. \<not> skipped r \<and> P (cell r)) (rev rs) of
        [] \<Rightarrow> None
      | r # _ \<Rightarrow> Some (cell r))"

definition row_group_A :: row where
  "row_group_A = empty_row\<lparr>col_Organisation_ID := ''x1'', col_Detailed_Item_ID := ''A'',
     col_Detailed_Item_Name := ''Foo'', col_Sector_Mapping_ID := ''S1''\<rparr>"

definition row_group_blank :: row where
  "row_group_blank = empty_row\<lparr>col_Organisation_ID := ''x2'', col_Organisation_Capability := ''welding''\<rparr>"

definition row_group_B :: row where
  "row_group_B = empty_row\<lparr>col_Organisation_ID := ''x3'', col_Detailed_Item_ID := ''B'',
     col_Detailed_Item_Name := ''Bar'', col_Sector_Mapping_ID := ''S2''\<rparr>"

definition row_sector_subtotal :: row where
  "row_sector_subtotal = empty_row\<lparr>col_Organisation_ID := ''x1'', col_Sector_Mapping_ID := ''Subtotal''\<rparr>"

text \<open>The value under a key of a collection.\<close>

definition at_key :: "string \<Rightarrow> (string \<rightharpoonup> 'a) \<Rightarrow> 'a option" where
  "at_key k m = m k"

text \<open>
  The key under which row \<open>i\<close> of the file registers its item name (line 42), and the
  key under which it registers its sector name (line 76): the local
  \<^verbatim>\<open>sector_mapping_id\<close>, carried forward when the cell of the row is blank.
\<close>

definition item_key :: "row list \<Rightarrow> nat \<Rightarrow> string option" where
  "item_key rs i = or_None (strip (col_Item_ID (rs ! i)))"

definition sector_key :: "row list \<Rightarrow> nat \<Rightarrow> string option" where
  "sector_key rs i =
     (if strip (col_Sector_Mapping_ID (rs ! i)) \<noteq> [] then Some (strip (col_Sector_Mapping_ID (rs ! i)))
      else nearest_preceding (strip \<circ> col_Sector_Mapping_ID) non_blank (take i rs))"

text \<open>Lines 40 and 64: the stripped name cells.\<close>

definition item_name :: "row \<Rightarrow> string" where
  "item_name r = strip (col_Item_Name r)"

definition sector_name :: "row \<Rightarrow> string" where
  "sector_name r = strip (col_Sector_Name r)"

text \<open>
  Last write wins: the name of the last row of the file that is processed, has the key
  \<open>k\<close> and a non-blank name; absent when there is no such row.
\<close>

definition last_write ::
  "(row list \<Rightarrow> nat \<Rightarrow> string option) \<Rightarrow> (row \<Rightarrow> string) \<Rightarrow> row list \<Rightarrow> string \<Rightarrow> string option" where
  "last_write key name rs k =
     (case filter (\<lambda>i. \<not> skipped (rs ! i) \<and> key rs i = Some k \<and> name (rs ! i) \<noteq> [])
             (rev [0..<length rs]) of
        [] \<Rightarrow> None
      | i # _ \<Rightarrow> Some (name (rs ! i)))"

definition row_item_foo :: row where
  "row_item_foo = empty_row\<lparr>col_Organisation_ID := ''x1'', col_Item_ID := ''I1'', col_Item_Name := ''Foo'',
     col_Sector_Mapping_ID := ''S1'', col_Sector_Name := ''Mining''\<rparr>"

definition row_item_bar :: row where
  "row_item_bar = empty_row\<lparr>col_Organisation_ID := ''x2'', col_Item_ID := ''I1'', col_Item_Name := ''Bar'',
     col_Sector_Name := ''Rail''\<rparr>"

definition row_detail_first :: row where
  "row_detail_first = empty_row\<lparr>col_Organisation_ID := ''x1'', col_Item_ID := ''I1'',
     col_Detailed_Item_ID := ''D1'', col_Detailed_Item_Name := ''Foo''\<rparr>"

definition row_detail_other :: row where
  "row_detail_other = empty_row\<lparr>col_Organisation_ID := ''x1'',
     col_Detailed_Item_ID := ''D2'', col_Detailed_Item_Name := ''Bar''\<rparr>"

definition row_detail_again :: row where
  "row_detail_again = empty_row\<lparr>col_Organisation_ID := ''x1'', col_Item_ID := ''I2'',
     col_Detailed_Item_ID := ''D1'', col_Detailed_Item_Name := ''Baz''\<rparr>"

text \<open>
  The references of the capabilities and of the two slots to the collections, each
  for one kind of reference.
\<close>

definition item_refs_ok :: "'f state \<Rightarrow> bool" where
  "item_refs_ok st \<longleftrightarrow>
     (\<forall>c \<in> set (capabilities st). \<forall>i. cap_itemId c = Some i \<longrightarrow> i \<in> dom (items st))"

definition detailed_item_refs_ok :: "'f state \<Rightarrow> bool" where
  "detailed_item_refs_ok st \<longleftrightarrow>
     (\<forall>c \<in> set (capabilities st). \<forall>d. cap_detailedItemId c = Some d \<longrightarrow> d \<in> dom (detailed_items st))
     \<and> (\<forall>d. current_detailed_item_id st = Some d \<longrightarrow> d \<in> dom (detailed_items st))"

definition sector_refs_ok :: "'f state \<Rightarrow> bool" where
  "sector_refs_ok st \<longleftrightarrow>
     (\<forall>c \<in> set (capabilities st). \<forall>s. cap_sectorMappingId c = Some s \<longrightarrow> s \<in> dom (sectors st))
     \<and> (\<forall>s. current_sector_mapping_id st = Some s \<longrightarrow> s \<in> dom (sectors st))"

text \<open>Rows that, when processed, carry a name wherever they carry an id, each for one column.\<close>

definition item_named :: "row \<Rightarrow> bool" where
  "item_named r \<longleftrightarrow>
     (\<not> skipped r \<and> strip (col_Item_ID r) \<noteq> [] \<longrightarrow> strip (col_Item_Name r) \<noteq> [])"

definition detailed_item_named :: "row \<Rightarrow> bool" where
  "detailed_item_named r \<longleftrightarrow>
     (\<not> skipped r \<and> opens_group (detailed_item_id_raw r) \<longrightarrow>
        strip (col_Detailed_Item_Name r) \<noteq> [])"

definition sector_named :: "row \<Rightarrow> bool" where
  "sector_named r \<longleftrightarrow>
     (\<not> skipped r \<and> strip (col_Sector_Mapping_ID r) \<noteq> [] \<longrightarrow> strip (col_Sector_Name r) \<noteq> [])"

definition row_named :: row where
  "row_named = empty_row\<lparr>col_Organisation_ID := ''x1'', col_Item_ID := ''I1'', col_Item_Name := ''Foo'',
     col_Detailed_Item_ID := ''D1'', col_Detailed_Item_Name := ''Fine Foo'',
     col_Sector_Mapping_ID := ''S1'', col_Sector_Name := ''Mining'',
     col_Organisation_Capability := ''welding''\<rparr>"

definition row_unnamed :: row where
  "row_unnamed = empty_row\<lparr>col_Organisation_ID := ''x1'', col_Item_ID := ''I1'',
     col_Detailed_Item_ID := ''D1'', col_Sector_Mapping_ID := ''S1'',
     col_Organisation_Capability := ''welding''\<rparr>"

text \<open>
  An organisation record keeps what it holds: every string field that is present in
  \<open>e\<close>, and every coordinate of \<open>e\<close> that is truthy (present and not zero), has the
  same value in \<open>e'\<close>.
\<close>

definition org_keeps :: "('f \<Rightarrow> bool) \<Rightarrow> 'f organisation \<Rightarrow> 'f organisation \<Rightarrow> bool" where
  "org_keeps T e e' \<longleftrightarrow>
     organisationId e' = organisationId e
     \<and> (organisationName e \<noteq> None \<longrightarrow> organisationName e' = organisationName e)
     \<and> (billingStreet e \<noteq> None \<longrightarrow> billingStreet e' = billingStreet e)
     \<and> (billingCity e \<noteq> None \<longrightarrow> billingCity e' = billingCity e)
     \<and> (billingStateProvince e \<noteq> None \<longrightarrow> billingStateProvince e' = billingStateProvince e)
     \<and> (billingZipPostalCode e \<noteq> None \<longrightarrow> billingZipPostalCode e' = billingZipPostalCode e)
     \<and> (formattedAddress e \<noteq> None \<longrightarrow> formattedAddress e' = formattedAddress e)
     \<and> (truthy_float T (latitude e) \<longrightarrow> latitude e' = latitude e)
     \<and> (truthy_float T (longitude e) \<longrightarrow> longitude e' = longitude e)"

text \<open>
  An organisation record is filled from a row: every string field that is absent in
  \<open>e\<close> holds in \<open>e'\<close> the stripped cell of the row (absent when the cell is blank), and
  a coordinate that is not truthy in \<open>e\<close> holds the coordinate of the row when that is
  truthy.
\<close>

definition org_fills ::
  "('f \<Rightarrow> bool) \<Rightarrow> row \<Rightarrow> 'f option \<Rightarrow> 'f option \<Rightarrow> 'f organisation \<Rightarrow> 'f organisation \<Rightarrow> bool" where
  "org_fills T r lat lon e e' \<longleftrightarrow>
     (organisationName e = None \<longrightarrow> organisationName e' = or_None (strip (col_Organisation_Name r)))
     \<and> (billingStreet e = None \<longrightarrow> billingStreet e' = or_None (strip (col_Billing_Street r)))
     \<and> (billingCity e = None \<longrightarrow> billingCity e' = or_None (strip (col_Billing_City r)))
     \<and> (billingStateProvince e = None \<longrightarrow>
           billingStateProvince e' = or_None (strip (col_Billing_State_Province r)))
     \<and> (billingZipPostalCode e = None \<longrightarrow>
           billingZipPostalCode e' = or_None (strip (col_Billing_Zip_Postal_Code r)))
     \<and> (formattedAddress e = None \<longrightarrow> formattedAddress e' = or_None (strip (col_Formatted_Address r)))
     \<and> (\<not> truthy_float T (latitude e) \<longrightarrow> truthy_float T lat \<longrightarrow> latitude e' = lat)
     \<and> (\<not> truthy_float T (longitude e) \<longrightarrow> truthy_float T lon \<longrightarrow> longitude e' = lon)"

text \<open>No string field of a stored organisation is the empty string.\<close>

definition fields_nonempty :: "'f organisation \<Rightarrow> bool" where
  "fields_nonempty e \<longleftrightarrow>
     organisationName e \<noteq> Some [] \<and> billingStreet e \<noteq> Some [] \<and> billingCity e \<noteq> Some []
     \<and> billingStateProvince e \<noteq> Some [] \<and> billingZipPostalCode e \<noteq> Some []
     \<and> formattedAddress e \<noteq> Some []"

definition orgs_nonempty :: "'f state \<Rightarrow> bool" where
  "orgs_nonempty st \<longleftrightarrow> (\<forall>k e. organisations st k = Some e \<longrightarrow> fields_nonempty e)"

definition row_org_first :: row where
  "row_org_first = empty_row\<lparr>col_Organisation_ID := ''x1'', col_Organisation_Name := ''Acme'',
     col_Latitude := Some ''5''\<rparr>"

definition row_org_second :: row where
  "row_org_second = empty_row\<lparr>col_Organisation_ID := ''X1'', col_Organisation_Name := ''Other'',
     col_Billing_Street := ''1 Main St'', col_Latitude := Some ''7'', col_Longitude := Some ''9''\<rparr>"

definition row_lat_zero :: row where
  "row_lat_zero = empty_row\<lparr>col_Organisation_ID := ''x1'', col_Latitude := Some ''0''\<rparr>"

definition row_lat_five :: row where
  "row_lat_five = empty_row\<lparr>col_Organisation_ID := ''x1'', col_Latitude := Some ''5''\<rparr>"

text \<open>The first present value of a list of optional values.\<close>

fun first_some :: "'a option list \<Rightarrow> 'a option" where
  "first_some [] = None"
| "first_some (None # xs) = first_some xs"
| "first_some (Some v # xs) = Some v"

text \<open>The coordinates that a row contributes (lines 96-107); none when the parsing raises.\<close>

definition lat_of :: "(string \<Rightarrow> py_error + 'f) \<Rightarrow> row \<Rightarrow> 'f option" where
  "lat_of F r = (case parse_coordinates F r of Inl e \<Rightarrow> None | Inr c \<Rightarrow> fst c)"

definition lon_of :: "(string \<Rightarrow> py_error + 'f) \<Rightarrow> row \<Rightarrow> 'f option" where
  "lon_of F r = (case parse_coordinates F r of Inl e \<Rightarrow> None | Inr c \<Rightarrow> snd c)"

text \<open>
  The record of organisation \<open>k\<close> in which every field is the first value that the
  rows supply for it, in their order.
\<close>

definition merged :: "(string \<Rightarrow> py_error + 'f) \<Rightarrow> string \<Rightarrow> row list \<Rightarrow> 'f organisation" where
  "merged F k rs =
     \<lparr> organisationId = k,
       organisationName = first_some (map (\<lambda>r. or_None (strip (col_Organisation_Name r))) rs),
       billingStreet = first_some (map (\<lambda>r. or_None (strip (col_Billing_Street r))) rs),
       billingCity = first_some (map (\<lambda>r. or_None (strip (col_Billing_City r))) rs),
       billingStateProvince = first_some (map (\<lambda>r. or_None (strip (col_Billing_State_Province r))) rs),
       billingZipPostalCode = first_some (map (\<lambda>r. or_None (strip (col_Billing_Zip_Postal_Code r))) rs),
       formattedAddress = first_some (map (\<lambda>r. or_None (strip (col_Formatted_Address r))) rs),
       latitude = first_some (map (lat_of F) rs),
       longitude = first_some (map (lon_of F) rs) \<rparr>"

text \<open>The words of the specification: a field is supplied (non-blank) by at most one of the rows.\<close>

definition supplied_by_at_most_one :: "(row \<Rightarrow> string) \<Rightarrow> row list \<Rightarrow> bool" where
  "supplied_by_at_most_one cell rs \<longleftrightarrow> length (filter (\<lambda>r. strip (cell r) \<noteq> []) rs) \<le> 1"

definition single_source :: "row list \<Rightarrow> bool" where
  "single_source rs \<longleftrightarrow>
     supplied_by_at_most_one col_Organisation_Name rs
     \<and> supplied_by_at_most_one col_Billing_Street rs
     \<and> supplied_by_at_most_one col_Billing_City rs
     \<and> supplied_by_at_most_one col_Billing_State_Province rs
     \<and> supplied_by_at_most_one col_Billing_Zip_Postal_Code rs
     \<and> supplied_by_at_most_one col_Formatted_Address rs
     \<and> supplied_by_at_most_one (cell_text \<circ> col_Latitude) rs
     \<and> supplied_by_at_most_one (cell_text \<circ> col_Longitude) rs"

text \<open>No coordinate that the row contributes is zero.\<close>

definition coordinates_nonzero :: "(string \<Rightarrow> py_error + 'f) \<Rightarrow> ('f \<Rightarrow> bool) \<Rightarrow> row \<Rightarrow> bool" where
  "coordinates_nonzero F T r \<longleftrightarrow>
     (lat_of F r = None \<or> truthy_float T (lat_of F r))
     \<and> (lon_of F r = None \<or> truthy_float T (lon_of F r))"

definition row_src_name :: row where
  "row_src_name = empty_row\<lparr>col_Organisation_ID := ''x1'', col_Organisation_Name := ''Acme'',
     col_Latitude := Some ''5''\<rparr>"

definition row_src_street :: row where
  "row_src_street = empty_row\<lparr>col_Organisation_ID := ''X1'', col_Billing_Street := ''1 Main St'',
     col_Longitude := Some ''9''\<rparr>"

definition row_org_plain :: row where
  "row_org_plain = empty_row\<lparr>col_Organisation_ID := ''x1''\<rparr>"

text \<open>The rows of a line that is not short: the three optional cells are present.\<close>

definition full_width :: "row \<Rightarrow> bool" where
  "full_width r \<longleftrightarrow>
     col_Validation_Date r \<noteq> None \<and> col_Latitude r \<noteq> None \<and> col_Longitude r \<noteq> None"

text \<open>
  A line that lacks its last cell: an organisation, a latitude, and no cell for the
  longitude.
\<close>

definition row_short :: row where
  "row_short = empty_row\<lparr>col_Organisation_ID := ''x1'', col_Latitude := Some ''5'',
     col_Longitude := None\<rparr>"

section \<open>Properties of the validation date\<close>

lemma strptime_dmy_error: "strptime_dmy s = Inl e \<Longrightarrow> e = ValueError"
  by (auto simp: strptime_dmy_def Let_def split: if_splits)

lemma strptime_dmy_slash: "strptime_dmy s = Inr t \<Longrightarrow> CHR ''/'' \<in> set s"
proof (rule ccontr)
  assume a: "strptime_dmy s = Inr t" and n: "CHR ''/'' \<notin> set s"
  from n have "takeWhile (\<lambda>c. c \<noteq> CHR ''/'') s = s"
    by (simp add: takeWhile_eq_all_conv) metis
  with a show False
    by (simp add: strptime_dmy_def Let_def split: if_splits)
qed

lemma strftime_ymd_iso:
  "1000 \<le> y \<Longrightarrow> strftime_ymd (y, m, d) = pad4 y @ ''-'' @ pad2 m @ ''-'' @ pad2 d"
  by (simp add: strftime_ymd_def year_text_def)

text \<open>
  C3, as the code has it, for a cell that holds a text \<open>s\<close>. The text
  \<^verbatim>\<open>05/03/2024\<close> becomes \<^verbatim>\<open>2024-03-05\<close>; the normalisation of a text never raises; a
  blank text gives no date; a text without a slash is kept as it is; a text with a
  slash that \<^verbatim>\<open>strptime\<close> refuses gives no date; a text that \<^verbatim>\<open>strptime\<close> accepts is
  rewritten by \<^verbatim>\<open>strftime\<close>, and from the year 1000 on that is the year in four
  digits, the month and the day in two, joined by hyphens.
\<close>

theorem validation_date_by_format:
  "parse_validation_date (Some ''05/03/2024'') = Inr (Some ''2024-03-05'')
   \<and> (\<exists>v. parse_validation_date (Some s) = Inr v)
   \<and> (strip s = [] \<longrightarrow> parse_validation_date (Some s) = Inr None)
   \<and> (strip s \<noteq> [] \<longrightarrow> CHR ''/'' \<notin> set (strip s) \<longrightarrow>
        parse_validation_date (Some s) = Inr (Some (strip s)))
   \<and> (CHR ''/'' \<in> set (strip s) \<longrightarrow> strptime_dmy (strip s) = Inl ValueError \<longrightarrow>
        parse_validation_date (Some s) = Inr None)
   \<and> (\<forall>y m d. strptime_dmy (strip s) = Inr (y, m, d) \<longrightarrow>
        parse_validation_date (Some s) = Inr (Some (strftime_ymd (y, m, d)))
        \<and> (1000 \<le> y \<longrightarrow>
             parse_validation_date (Some s) = Inr (Some (pad4 y @ ''-'' @ pad2 m @ ''-'' @ pad2 d))))"
proof (intro conjI impI allI)
  show "parse_validation_date (Some ''05/03/2024'') = Inr (Some ''2024-03-05'')" by code_simp
next
  show "\<exists>v. parse_validation_date (Some s) = Inr v"
    by (cases "strptime_dmy (strip s)")
       (auto simp: parse_validation_date_def cell_strip_def dest: strptime_dmy_error)
next
  assume "strip s = []" then show "parse_validation_date (Some s) = Inr None"
    by (simp add: parse_validation_date_def cell_strip_def)
next
  assume "strip s \<noteq> []" "CHR ''/'' \<notin> set (strip s)"
  then show "parse_validation_date (Some s) = Inr (Some (strip s))"
    by (simp add: parse_validation_date_def cell_strip_def)
next
  assume "CHR ''/'' \<in> set (strip s)" "strptime_dmy (strip s) = Inl ValueError"
  then show "parse_validation_date (Some s) = Inr None"
    by (auto simp: parse_validation_date_def cell_strip_def)
next
  fix y m d assume a: "strptime_dmy (strip s) = Inr (y, m, d)"
  from strptime_dmy_slash [OF a] have "CHR ''/'' \<in> set (strip s)" .
  with a show r: "parse_validation_date (Some s) = Inr (Some (strftime_ymd (y, m, d)))"
    by (auto simp: parse_validation_date_def cell_strip_def)
  assume "1000 \<le> y"
  with r show "parse_validation_date (Some s) = Inr (Some (pad4 y @ ''-'' @ pad2 m @ ''-'' @ pad2 d))"
    by (simp add: strftime_ymd_iso)
qed

text \<open>The cases of the normalisation at concrete cells.\<close>

theorem validation_date_by_format_witness:
  "strip ''  '' = [] \<and> parse_validation_date (Some ''  '') = Inr None
   \<and> strip ''2024-03-05'' \<noteq> [] \<and> CHR ''/'' \<notin> set (strip ''2024-03-05'')
   \<and> parse_validation_date (Some ''2024-03-05'') = Inr (Some ''2024-03-05'')
   \<and> CHR ''/'' \<in> set (strip ''31/02/2024'') \<and> strptime_dmy (strip ''31/02/2024'') = Inl ValueError
   \<and> parse_validation_date (Some ''31/02/2024'') = Inr None
   \<and> strptime_dmy (strip ''5/3/2024'') = Inr (2024, 3, 5)
   \<and> parse_validation_date (Some ''5/3/2024'') = Inr (Some ''2024-03-05'')"
proof -
  have s1: "strip ''  '' = []" by code_simp
  have s2: "strip ''2024-03-05'' = ''2024-03-05''" by code_simp
  have s3: "strip ''31/02/2024'' = ''31/02/2024''" by code_simp
  have s4: "strip ''5/3/2024'' = ''5/3/2024''" by code_simp
  have e3: "strptime_dmy ''31/02/2024'' = Inl ValueError" by code_simp
  have e4: "strptime_dmy ''5/3/2024'' = Inr (2024, 3, 5)" by code_simp
  have f4: "pad4 2024 @ ''-'' @ pad2 3 @ ''-'' @ pad2 5 = ''2024-03-05''" by code_simp
  have y4: "(1000::nat) \<le> 2024" by simp
  note t1 = validation_date_by_format [of "''  ''"]
  note t2 = validation_date_by_format [of "''2024-03-05''"]
  note t3 = validation_date_by_format [of "''31/02/2024''"]
  note t4 = validation_date_by_format [of "''5/3/2024''"]
  from t1 [THEN conjunct2, THEN conjunct2, THEN conjunct1] s1
  have r1: "parse_validation_date (Some ''  '') = Inr None" by simp
  from t2 [THEN conjunct2, THEN conjunct2, THEN conjunct2, THEN conjunct1] s2
  have r2: "parse_validation_date (Some ''2024-03-05'') = Inr (Some ''2024-03-05'')" by simp
  from t3 [THEN conjunct2, THEN conjunct2, THEN conjunct2, THEN conjunct2, THEN conjunct1] s3 e3
  have r3: "parse_validation_date (Some ''31/02/2024'') = Inr None" by simp
  from t4 [THEN conjunct2, THEN conjunct2, THEN conjunct2, THEN conjunct2, THEN conjunct2,
      rule_format, of 2024 3 5] s4 e4 y4
  have "parse_validation_date (Some ''5/3/2024'')
          = Inr (Some (pad4 2024 @ ''-'' @ pad2 3 @ ''-'' @ pad2 5))"
    by (simp add: strftime_ymd_iso)
  then have r4: "parse_validation_date (Some ''5/3/2024'') = Inr (Some ''2024-03-05'')"
    by (simp only: f4)
  from s1 s2 s3 s4 e3 e4 r1 r2 r3 r4 show ?thesis by simp
qed

text \<open>
  The text \<^verbatim>\<open>not-a-date\<close> does not parse under the day/month/year format, and the
  validation date it yields is the text itself, not the absent value. The text
  \<^verbatim>\<open>01/01/0999\<close> parses, and its year is written with three digits. A missing cell
  raises \<^verbatim>\<open>AttributeError\<close>.
\<close>

theorem validation_date_not_a_date:
  "strptime_dmy ''not-a-date'' = Inl ValueError
   \<and> parse_validation_date (Some ''not-a-date'') = Inr (Some ''not-a-date'')
   \<and> parse_validation_date (Some ''not-a-date'') \<noteq> Inr None
   \<and> strptime_dmy ''01/01/0999'' = Inr (999, 1, 1)
   \<and> parse_validation_date (Some ''01/01/0999'') = Inr (Some ''999-01-01'')
   \<and> parse_validation_date None = Inl AttributeError"
  by code_simp

section \<open>The iteration as a whole\<close>

lemma strip_Nil [simp]: "strip [] = []"
  by (simp add: strip_def)

lemma skipped_iff: "skipped r \<longleftrightarrow> strip (col_Organisation_ID r) = []"
  by (auto simp: skipped_def)

lemma organisation_id_Nil_iff: "organisation_id r = [] \<longleftrightarrow> skipped r"
  by (simp add: organisation_id_def skipped_iff upper_def Let_def)

lemma parse_validation_date_Inr: "\<exists>v. parse_validation_date (Some c) = Inr v"
  by (cases "strptime_dmy (strip c)")
     (auto simp: parse_validation_date_def cell_strip_def dest: strptime_dmy_error)

lemma process_row_skipped: "skipped r \<Longrightarrow> process_row F T st r = Inr st"
  by (simp add: process_row_def)

lemma process_row_Inr:
  assumes "process_row F T st r = Inr st'" and "\<not> skipped r"
  shows "\<exists>vd lat lon. parse_coordinates F r = Inr (lat, lon) \<and>
           parse_validation_date (col_Validation_Date r) = Inr vd \<and>
           st' = store_capability
                   (store_organisation T (group_sector (group_detailed_item (store_item st r) r) r) r lat lon)
                   r vd (current_detailed_item_id (group_detailed_item (store_item st r) r))
                   (sector_mapping_id (group_detailed_item (store_item st r) r) r)"
  using assms
  by (auto simp: process_row_def Let_def organisation_id_Nil_iff split: sum.splits)

lemma parse_coordinates_Some:
  assumes "col_Latitude r = Some a" and "col_Longitude r = Some b"
  shows "parse_coordinates F r =
     (let handler = (\<lambda>e lat. if e = ValueError \<or> e = TypeError then Inr (lat, None) else Inl e)
      in case (if strip a \<noteq> [] then map_sum id Some (F (strip a)) else Inr None) of
           Inl e \<Rightarrow> handler e None
         | Inr lat \<Rightarrow>
             (case (if strip b \<noteq> [] then map_sum id Some (F (strip b)) else Inr None) of
                Inl e \<Rightarrow> handler e lat
              | Inr lon \<Rightarrow> Inr (lat, lon)))"
  by (simp add: parse_coordinates_def cell_strip_def assms)

lemma parse_coordinates_Inr:
  assumes h: "\<forall>s e. F s = Inl e \<longrightarrow> e = ValueError \<or> e = TypeError"
    and la: "col_Latitude r \<noteq> None" and lo: "col_Longitude r \<noteq> None"
  shows "\<exists>c. parse_coordinates F r = Inr c"
proof -
  from la lo obtain a b where ab: "col_Latitude r = Some a" "col_Longitude r = Some b" by auto
  note pc = parse_coordinates_Some [OF ab]
  show ?thesis
  proof (cases "F (strip a)")
    case (Inl e)
    with h have "e = ValueError \<or> e = TypeError" by blast
    with Inl show ?thesis
      by (cases "F (strip b)") (auto simp: pc Let_def dest: h [rule_format])
  next
    case (Inr x)
    show ?thesis
    proof (cases "F (strip b)")
      case (Inl e)
      with h have "e = ValueError \<or> e = TypeError" by blast
      with Inl Inr show ?thesis by (auto simp: pc Let_def)
    next
      case (Inr y)
      with \<open>F (strip a) = Inr x\<close> show ?thesis
        by (auto simp: pc Let_def)
    qed
  qed
qed

lemma store_item_frame [simp]:
  "detailed_items (store_item st r) = detailed_items st"
  "sectors (store_item st r) = sectors st"
  "organisations (store_item st r) = organisations st"
  "capabilities (store_item st r) = capabilities st"
  "current_detailed_item_id (store_item st r) = current_detailed_item_id st"
  "current_sector_mapping_id (store_item st r) = current_sector_mapping_id st"
  by (simp_all add: store_item_def Let_def)

lemma group_detailed_item_frame [simp]:
  "items (group_detailed_item st r) = items st"
  "sectors (group_detailed_item st r) = sectors st"
  "organisations (group_detailed_item st r) = organisations st"
  "capabilities (group_detailed_item st r) = capabilities st"
  "current_sector_mapping_id (group_detailed_item st r) = current_sector_mapping_id st"
  by (simp_all add: group_detailed_item_def Let_def)

lemma group_sector_frame [simp]:
  "items (group_sector st r) = items st"
  "detailed_items (group_sector st r) = detailed_items st"
  "organisations (group_sector st r) = organisations st"
  "capabilities (group_sector st r) = capabilities st"
  "current_detailed_item_id (group_sector st r) = current_detailed_item_id st"
  by (simp_all add: group_sector_def Let_def split: option.splits)

lemma store_organisation_frame [simp]:
  "items (store_organisation T st r lat lon) = items st"
  "detailed_items (store_organisation T st r lat lon) = detailed_items st"
  "sectors (store_organisation T st r lat lon) = sectors st"
  "capabilities (store_organisation T st r lat lon) = capabilities st"
  "current_detailed_item_id (store_organisation T st r lat lon) = current_detailed_item_id st"
  "current_sector_mapping_id (store_organisation T st r lat lon) = current_sector_mapping_id st"
  by (simp_all add: store_organisation_def split: option.splits)

lemma store_capability_frame [simp]:
  "items (store_capability st r vd did sid) = items st"
  "detailed_items (store_capability st r vd did sid) = detailed_items st"
  "sectors (store_capability st r vd did sid) = sectors st"
  "organisations (store_capability st r vd did sid) = organisations st"
  "current_detailed_item_id (store_capability st r vd did sid) = current_detailed_item_id st"
  "current_sector_mapping_id (store_capability st r vd did sid) = current_sector_mapping_id st"
  by (simp_all add: store_capability_def Let_def)

lemma organisations_store_organisation:
  "organisations (store_organisation T st r lat lon) =
     (organisations st)(organisation_id r \<mapsto>
        (case organisations st (organisation_id r) of
           None \<Rightarrow> new_organisation r (organisation_id r) lat lon
         | Some existing \<Rightarrow> update_organisation T existing r lat lon))"
  by (simp add: store_organisation_def split: option.splits)

lemma process_row_organisations:
  assumes "process_row F T st r = Inr st'" and "\<not> skipped r"
  shows "\<exists>lat lon. parse_coordinates F r = Inr (lat, lon) \<and>
           organisations st' = (organisations st)(organisation_id r \<mapsto>
             (case organisations st (organisation_id r) of
                None \<Rightarrow> new_organisation r (organisation_id r) lat lon
              | Some existing \<Rightarrow> update_organisation T existing r lat lon))"
proof -
  from process_row_Inr [OF assms] obtain vd lat lon where
    c: "parse_coordinates F r = Inr (lat, lon)" and
    s: "st' = store_capability
                   (store_organisation T (group_sector (group_detailed_item (store_item st r) r) r) r lat lon)
                   r vd (current_detailed_item_id (group_detailed_item (store_item st r) r))
                   (sector_mapping_id (group_detailed_item (store_item st r) r) r)"
    by blast
  show ?thesis using c by (simp add: s organisations_store_organisation)
qed

lemma process_row_total:
  assumes "\<forall>s e. F s = Inl e \<longrightarrow> e = ValueError \<or> e = TypeError" and "full_width r"
  shows "\<exists>st'. process_row F T st r = Inr st'"
proof -
  from assms(2) obtain d where d: "col_Validation_Date r = Some d" by (auto simp: full_width_def)
  obtain vd where v: "parse_validation_date (col_Validation_Date r) = Inr vd"
    unfolding d using parse_validation_date_Inr by blast
  from assms(2) have "col_Latitude r \<noteq> None" "col_Longitude r \<noteq> None"
    by (simp_all add: full_width_def)
  from parse_coordinates_Inr [OF assms(1) this]
  obtain c where c: "parse_coordinates F r = Inr c" by blast
  show ?thesis by (cases c) (simp add: process_row_def Let_def v c)
qed

text \<open>
  C10, as the code has it, for a row whose two coordinate cells hold texts. When
  \<^verbatim>\<open>float\<close> raises nothing but \<^verbatim>\<open>ValueError\<close> or \<^verbatim>\<open>TypeError\<close>, parsing the coordinates
  of such a row returns. When its latitude text is present and \<^verbatim>\<open>float\<close> refuses it,
  both coordinates of the row are absent, whatever the longitude text is, and the
  organisation of the row keeps the latitude and longitude it had (none, for a new
  organisation).
\<close>

theorem coordinates_coupled:
  "((\<forall>s e. F s = Inl e \<longrightarrow> e = ValueError \<or> e = TypeError) \<longrightarrow>
      col_Latitude r \<noteq> None \<longrightarrow> col_Longitude r \<noteq> None \<longrightarrow>
      (\<exists>c. parse_coordinates F r = Inr c))
   \<and> (\<forall>a. col_Latitude r = Some a \<longrightarrow> col_Longitude r \<noteq> None \<longrightarrow>
        strip a \<noteq> [] \<longrightarrow> F (strip a) = Inl ValueError \<longrightarrow>
        parse_coordinates F r = Inr (None, None)
        \<and> (\<forall>st'. \<not> skipped r \<longrightarrow> process_row F T st r = Inr st' \<longrightarrow>
             (\<exists>org. organisations st' (organisation_id r) = Some org
                \<and> latitude org = (case organisations st (organisation_id r) of
                                    None \<Rightarrow> None | Some existing \<Rightarrow> latitude existing)
                \<and> longitude org = (case organisations st (organisation_id r) of
                                    None \<Rightarrow> None | Some existing \<Rightarrow> longitude existing))))"
proof (intro conjI impI allI)
  assume h: "\<forall>s e. F s = Inl e \<longrightarrow> e = ValueError \<or> e = TypeError"
    and "col_Latitude r \<noteq> None" "col_Longitude r \<noteq> None"
  then show "\<exists>c. parse_coordinates F r = Inr c" by (rule parse_coordinates_Inr)
next
  fix a
  assume "col_Latitude r = Some a" "col_Longitude r \<noteq> None"
    "strip a \<noteq> []" "F (strip a) = Inl ValueError"
  then show "parse_coordinates F r = Inr (None, None)"
    by (auto simp: parse_coordinates_def cell_strip_def)
next
  fix a st'
  assume m: "col_Latitude r = Some a" "col_Longitude r \<noteq> None"
      "strip a \<noteq> []" "F (strip a) = Inl ValueError"
    and n: "\<not> skipped r" and p: "process_row F T st r = Inr st'"
  from m have c: "parse_coordinates F r = Inr (None, None)"
    by (auto simp: parse_coordinates_def cell_strip_def)
  from process_row_organisations [OF p n] c
  have o: "organisations st' = (organisations st)(organisation_id r \<mapsto>
             (case organisations st (organisation_id r) of
                None \<Rightarrow> new_organisation r (organisation_id r) None None
              | Some existing \<Rightarrow> update_organisation T existing r None None))"
    by simp
  show "\<exists>org. organisations st' (organisation_id r) = Some org
                \<and> latitude org = (case organisations st (organisation_id r) of
                                    None \<Rightarrow> None | Some existing \<Rightarrow> latitude existing)
                \<and> longitude org = (case organisations st (organisation_id r) of
                                    None \<Rightarrow> None | Some existing \<Rightarrow> longitude existing)"
    by (simp add: o new_organisation_def update_organisation_def truthy_float_def
             split: option.splits)
qed

lemma digits_float_errors: "\<forall>s e. digits_float s = Inl e \<longrightarrow> e = ValueError \<or> e = TypeError"
  by (simp add: digits_float_def)

text \<open>A row with a malformed latitude beside a valid longitude, on a fresh state.\<close>

theorem coordinates_coupled_witness:
  "col_Latitude row_bad_latitude = Some ''abc'' \<and> col_Longitude row_bad_latitude = Some ''5''
   \<and> strip ''abc'' \<noteq> []
   \<and> digits_float (strip ''abc'') = Inl ValueError
   \<and> digits_float (strip ''5'') = Inr 5
   \<and> \<not> skipped row_bad_latitude
   \<and> parse_coordinates digits_float row_bad_latitude = Inr (None, None)
   \<and> (\<exists>st'. process_row digits_float nonzero init_state row_bad_latitude = Inr st'
         \<and> (\<exists>org. organisations st' ''X1'' = Some org \<and> latitude org = None \<and> longitude org = None))"
proof -
  have la: "col_Latitude row_bad_latitude = Some ''abc''" by code_simp
  have lo: "col_Longitude row_bad_latitude = Some ''5''" by code_simp
  then have lo': "col_Longitude row_bad_latitude \<noteq> None" by simp
  have a: "strip ''abc'' \<noteq> []" by code_simp
  have b: "digits_float (strip ''abc'') = Inl ValueError" by code_simp
  have c: "digits_float (strip ''5'') = Inr 5" by code_simp
  have d: "\<not> skipped row_bad_latitude" by code_simp
  have fw: "full_width row_bad_latitude" by code_simp
  have k: "organisation_id row_bad_latitude = ''X1''" by code_simp
  have i: "organisations (init_state :: int state) ''X1'' = None" by (simp add: init_state_def)
  note t = coordinates_coupled [of digits_float row_bad_latitude nonzero init_state]
  obtain st' where p: "process_row digits_float nonzero init_state row_bad_latitude = Inr st'"
    using process_row_total [OF digits_float_errors fw] by blast
  note u = t [THEN conjunct2, rule_format, OF la lo' a b]
  from u [THEN conjunct2, rule_format, OF d p]
  have "\<exists>org. organisations st' ''X1'' = Some org \<and> latitude org = None \<and> longitude org = None"
    by (simp add: k i)
  moreover note u [THEN conjunct1]
  ultimately show ?thesis using la lo a b c d p by blast
qed

text \<open>
  A line that lacks its last cell, the longitude: reading the cell raises
  \<^verbatim>\<open>AttributeError\<close>, which the handler of the coordinates does not catch, and the pass
  over a file with this line ends with the exception.
\<close>

theorem short_line_aborts_pass:
  "col_Longitude row_short = None \<and> \<not> skipped row_short
   \<and> parse_coordinates digits_float row_short = Inl AttributeError
   \<and> map_sum id capabilities (process_csv digits_float nonzero [row_short]) = Inl AttributeError"
  by code_simp

lemma upper_char_idem: "upper_char (upper_char c) = upper_char c"
proof (cases "97 \<le> (of_char c :: nat) \<and> (of_char c :: nat) \<le> 122")
  case True
  define n where "n = (of_char c :: nat) - 32"
  from True have u: "upper_char c = char_of n" by (simp add: upper_char_def n_def)
  from True have "n < 97" unfolding n_def by linarith
  then have "(of_char (char_of n :: char) :: nat) < 97" by simp
  then have "upper_char (char_of n) = char_of n" by (simp add: upper_char_def Let_def)
  with u show ?thesis by simp
next
  case False
  then have "upper_char c = c" by (auto simp: upper_char_def Let_def)
  then show ?thesis by simp
qed

lemma upper_idem: "upper (upper s) = upper s"
  by (simp add: upper_def upper_char_idem)

lemma organisation_id_upper: "upper (organisation_id r) = organisation_id r"
  by (simp add: organisation_id_def Let_def upper_idem) (simp add: upper_def)

lemma organisationId_update [simp]:
  "organisationId (update_organisation T existing r lat lon) = organisationId existing"
  by (simp add: update_organisation_def)

lemma organisationId_new [simp]:
  "organisationId (new_organisation r k lat lon) = k"
  by (simp add: new_organisation_def)

lemma process_rows_append:
  "process_rows F T st (xs @ ys) =
     (case process_rows F T st xs of Inl e \<Rightarrow> Inl e | Inr st' \<Rightarrow> process_rows F T st' ys)"
  by (induction xs arbitrary: st) (auto split: sum.splits)

lemma process_rows_total:
  assumes "\<forall>s e. F s = Inl e \<longrightarrow> e = ValueError \<or> e = TypeError"
  shows "\<forall>r \<in> set rs. full_width r \<Longrightarrow> \<exists>st'. process_rows F T st rs = Inr st'"
proof (induction rs arbitrary: st)
  case Nil
  show ?case by simp
next
  case (Cons r rs)
  from Cons.prems have "full_width r" by simp
  from process_row_total [OF assms this]
  obtain st1 where "process_row F T st r = Inr st1" by blast
  with Cons show ?case by simp
qed

lemma digits_row_total:
  "full_width r \<Longrightarrow> \<exists>st'. process_row digits_float nonzero st r = Inr st'"
  by (rule process_row_total [OF digits_float_errors])

lemma example_full_width:
  "full_width row_bad_latitude" "full_width row_acme_lower" "full_width row_acme_mixed"
  "full_width row_subtotal" "full_width row_subtotal_bare" "full_width row_group_A"
  "full_width row_group_blank" "full_width row_group_B" "full_width row_sector_subtotal"
  "full_width row_item_foo" "full_width row_item_bar" "full_width row_detail_first"
  "full_width row_detail_other" "full_width row_detail_again" "full_width row_named"
  "full_width row_unnamed" "full_width row_org_first" "full_width row_org_second"
  "full_width row_lat_zero" "full_width row_lat_five" "full_width row_src_name"
  "full_width row_src_street" "full_width row_org_plain"
  by code_simp+

lemma capabilities_store_capability:
  "set (capabilities (store_capability st r vd did sid)) \<subseteq>
     set (capabilities st) \<union> {c. cap_organisationId c = organisation_id r}"
  by (auto simp: store_capability_def Let_def)

lemma process_row_org_keys_ok:
  assumes p: "process_row F T st r = Inr st'" and i: "org_keys_ok st"
  shows "org_keys_ok st'"
proof (cases "skipped r")
  case True
  with p i show ?thesis by (simp add: process_row_skipped)
next
  case False
  from process_row_Inr [OF p False] obtain vd lat lon where
    s: "st' = store_capability
                   (store_organisation T (group_sector (group_detailed_item (store_item st r) r) r) r lat lon)
                   r vd (current_detailed_item_id (group_detailed_item (store_item st r) r))
                   (sector_mapping_id (group_detailed_item (store_item st r) r) r)"
    by blast
  have o: "organisations st' = (organisations st)(organisation_id r \<mapsto>
             (case organisations st (organisation_id r) of
                None \<Rightarrow> new_organisation r (organisation_id r) lat lon
              | Some existing \<Rightarrow> update_organisation T existing r lat lon))"
    by (simp add: s organisations_store_organisation)
  have c: "set (capabilities st') \<subseteq> set (capabilities st) \<union> {c. cap_organisationId c = organisation_id r}"
    unfolding s using capabilities_store_capability [of _ r vd] by fastforce
  have k: "\<forall>k org. organisations st' k = Some org \<longrightarrow> upper k = k \<and> organisationId org = k"
    using i by (auto simp: o org_keys_ok_def organisation_id_upper split: option.splits if_splits)
  have "\<forall>c \<in> set (capabilities st'). upper (cap_organisationId c) = cap_organisationId c
           \<and> cap_organisationId c \<in> dom (organisations st')"
  proof
    fix x assume "x \<in> set (capabilities st')"
    with c have "x \<in> set (capabilities st) \<or> cap_organisationId x = organisation_id r" by blast
    then show "upper (cap_organisationId x) = cap_organisationId x
           \<and> cap_organisationId x \<in> dom (organisations st')"
    proof
      assume "x \<in> set (capabilities st)"
      with i have "upper (cap_organisationId x) = cap_organisationId x"
        "cap_organisationId x \<in> dom (organisations st)" by (auto simp: org_keys_ok_def)
      then show ?thesis by (auto simp: o)
    next
      assume "cap_organisationId x = organisation_id r"
      then show ?thesis by (simp add: o organisation_id_upper)
    qed
  qed
  with k show ?thesis by (simp add: org_keys_ok_def)
qed

lemma process_row_dom_organisations:
  assumes p: "process_row F T st r = Inr st'"
  shows "dom (organisations st') =
           dom (organisations st) \<union> (if skipped r then {} else {organisation_id r})"
proof (cases "skipped r")
  case True
  with p show ?thesis by (simp add: process_row_skipped)
next
  case False
  from process_row_organisations [OF p False] show ?thesis using False by auto
qed

lemma process_rows_org_keys_ok:
  "process_rows F T st rs = Inr st' \<Longrightarrow> org_keys_ok st \<Longrightarrow> org_keys_ok st'"
proof (induction rs arbitrary: st)
  case Nil
  then show ?case by simp
next
  case (Cons r rs)
  then show ?case
    by (auto split: sum.splits dest: process_row_org_keys_ok)
qed

lemma process_rows_dom_organisations:
  "process_rows F T st rs = Inr st' \<Longrightarrow>
     dom (organisations st') = dom (organisations st) \<union> organisation_id ` {r \<in> set rs. \<not> skipped r}"
proof (induction rs arbitrary: st)
  case Nil
  then show ?case by simp
next
  case (Cons r rs)
  from Cons.prems obtain st1 where a: "process_row F T st r = Inr st1"
    and b: "process_rows F T st1 rs = Inr st'" by (auto split: sum.splits)
  from Cons.IH [OF b] process_row_dom_organisations [OF a] show ?case by auto
qed

lemma org_keys_ok_init: "org_keys_ok init_state"
  by (simp add: org_keys_ok_def init_state_def)

text \<open>
  C5. After a pass that returns, the keys of the organisations are exactly the
  normalised (stripped, upper-cased) identifiers of the rows that were not skipped, so
  rows whose identifiers differ only in letter case share one record; every key is its
  own upper-case form and is the identifier stored in its record; two keys with the same
  upper-case form are the same key; and the identifier of every capability is in
  upper-case form and is a key of the organisations.
\<close>

theorem organisation_id_case_collapse:
  assumes "process_csv F T rs = Inr st"
  shows "dom (organisations st) = organisation_id ` {r \<in> set rs. \<not> skipped r}
    \<and> (\<forall>r \<in> set rs. \<not> skipped r \<longrightarrow> organisation_id r = upper (strip (col_Organisation_ID r)))
    \<and> (\<forall>k org. organisations st k = Some org \<longrightarrow> upper k = k \<and> organisationId org = k)
    \<and> (\<forall>k1 \<in> dom (organisations st). \<forall>k2 \<in> dom (organisations st). upper k1 = upper k2 \<longrightarrow> k1 = k2)
    \<and> (\<forall>c \<in> set (capabilities st). upper (cap_organisationId c) = cap_organisationId c
           \<and> cap_organisationId c \<in> dom (organisations st))"
proof -
  from assms have p: "process_rows F T init_state rs = Inr st" by (simp add: process_csv_def)
  have i: "org_keys_ok st" by (rule process_rows_org_keys_ok [OF p org_keys_ok_init])
  have d: "dom (organisations st) = organisation_id ` {r \<in> set rs. \<not> skipped r}"
    using process_rows_dom_organisations [OF p] by (simp add: init_state_def)
  have u: "\<forall>r \<in> set rs. \<not> skipped r \<longrightarrow> organisation_id r = upper (strip (col_Organisation_ID r))"
    by (simp add: organisation_id_def Let_def skipped_iff)
  have k: "\<forall>k org. organisations st k = Some org \<longrightarrow> upper k = k \<and> organisationId org = k"
    using i by (simp add: org_keys_ok_def)
  have e: "\<forall>k1 \<in> dom (organisations st). \<forall>k2 \<in> dom (organisations st). upper k1 = upper k2 \<longrightarrow> k1 = k2"
    using k by (metis domD)
  from d u k e i show ?thesis unfolding org_keys_ok_def by blast
qed

text \<open>Two rows whose identifiers differ in case and in surrounding blanks.\<close>

theorem organisation_id_case_collapse_witness:
  "\<exists>st. process_csv digits_float nonzero [row_acme_lower, row_acme_mixed] = Inr st
     \<and> dom (organisations st) = {''ACME''}
     \<and> map_option organisationId (organisations st ''ACME'') = Some ''ACME''"
proof -
  obtain st where p: "process_csv digits_float nonzero [row_acme_lower, row_acme_mixed] = Inr st"
    unfolding process_csv_def
    using process_rows_total [OF digits_float_errors, where rs = "[row_acme_lower, row_acme_mixed]" and st = init_state
        and T = nonzero]
    by (auto simp: example_full_width)
  have k1: "organisation_id row_acme_lower = ''ACME''" by code_simp
  have k2: "organisation_id row_acme_mixed = ''ACME''" by code_simp
  have n1: "\<not> skipped row_acme_lower" by code_simp
  have n2: "\<not> skipped row_acme_mixed" by code_simp
  note t = organisation_id_case_collapse [OF p]
  have s: "{r \<in> set [row_acme_lower, row_acme_mixed]. \<not> skipped r} = {row_acme_lower, row_acme_mixed}"
    using n1 n2 by auto
  have "dom (organisations st) = organisation_id ` {row_acme_lower, row_acme_mixed}"
    using t [THEN conjunct1] by (simp only: s)
  then have d: "dom (organisations st) = {''ACME''}" by (simp add: k1 k2)
  then obtain org where o: "organisations st ''ACME'' = Some org" by blast
  from t [THEN conjunct2, THEN conjunct2, THEN conjunct1] o
  have "organisationId org = ''ACME''" by simp
  with o have m: "map_option organisationId (organisations st ''ACME'') = Some ''ACME''" by simp
  from p d m show ?thesis by simp
qed

lemma process_row_items:
  assumes "process_row F T st r = Inr st'"
  shows "items st' =
     (if \<not> skipped r \<and> strip (col_Item_ID r) \<noteq> [] \<and> strip (col_Item_Name r) \<noteq> []
      then (items st)(strip (col_Item_ID r) \<mapsto> strip (col_Item_Name r)) else items st)"
proof (cases "skipped r")
  case True
  with assms show ?thesis by (simp add: process_row_skipped)
next
  case False
  from process_row_Inr [OF assms False] show ?thesis using False
    by (auto simp: store_item_def Let_def)
qed

lemma process_row_current_detailed_item_id:
  assumes "process_row F T st r = Inr st'"
  shows "current_detailed_item_id st' =
     (if \<not> skipped r \<and> detailed_item_id_raw r \<noteq> [] \<and> detailed_item_id_raw r \<noteq> ''Subtotal''
      then Some (detailed_item_id_raw r) else current_detailed_item_id st)"
proof (cases "skipped r")
  case True
  with assms show ?thesis by (simp add: process_row_skipped)
next
  case False
  from process_row_Inr [OF assms False] show ?thesis using False
    by (auto simp: group_detailed_item_def Let_def)
qed

lemma process_row_detailed_items:
  assumes "process_row F T st r = Inr st'"
  shows "detailed_items st' =
     (if \<not> skipped r \<and> detailed_item_id_raw r \<noteq> [] \<and> detailed_item_id_raw r \<noteq> ''Subtotal''
         \<and> strip (col_Detailed_Item_Name r) \<noteq> []
      then (detailed_items st)(detailed_item_id_raw r \<mapsto>
             \<lparr> detailedItemName = strip (col_Detailed_Item_Name r),
               di_itemId = (if strip (col_Item_ID r) \<noteq> [] then Some (strip (col_Item_ID r)) else None) \<rparr>)
      else detailed_items st)"
proof (cases "skipped r")
  case True
  with assms show ?thesis by (simp add: process_row_skipped)
next
  case False
  from process_row_Inr [OF assms False] show ?thesis using False
    by (auto simp: group_detailed_item_def Let_def)
qed

lemma process_row_current_sector_mapping_id:
  assumes "process_row F T st r = Inr st'"
  shows "current_sector_mapping_id st' =
     (if \<not> skipped r \<and> strip (col_Sector_Mapping_ID r) \<noteq> []
      then Some (strip (col_Sector_Mapping_ID r)) else current_sector_mapping_id st)"
proof (cases "skipped r")
  case True
  with assms show ?thesis by (simp add: process_row_skipped)
next
  case False
  from process_row_Inr [OF assms False] show ?thesis using False
    by (auto simp: group_sector_def Let_def split: option.splits)
qed

lemma sector_mapping_id_frame [simp]:
  "sector_mapping_id (store_item st r') r = sector_mapping_id st r"
  "sector_mapping_id (group_detailed_item st r') r = sector_mapping_id st r"
  by (simp_all add: sector_mapping_id_def Let_def)

lemma process_row_sectors:
  assumes "process_row F T st r = Inr st'"
  shows "sectors st' =
     (if skipped r then sectors st
      else (case sector_mapping_id st r of
              None \<Rightarrow> sectors st
            | Some k \<Rightarrow> if k \<noteq> [] \<and> strip (col_Sector_Name r) \<noteq> []
                        then (sectors st)(k \<mapsto> strip (col_Sector_Name r)) else sectors st))"
proof (cases "skipped r")
  case True
  with assms show ?thesis by (simp add: process_row_skipped)
next
  case False
  from process_row_Inr [OF assms False] show ?thesis using False
    by (auto simp: group_sector_def Let_def split: option.splits)
qed

lemma process_row_capabilities:
  assumes "process_row F T st r = Inr st'"
  shows "\<exists>vd. capabilities st' =
     (if \<not> skipped r \<and> strip (col_Organisation_Capability r) \<noteq> []
      then capabilities st @
        [\<lparr> organisationCapability = strip (col_Organisation_Capability r),
           cap_organisationId = organisation_id r,
           cap_itemId = (if strip (col_Item_ID r) \<noteq> [] then Some (strip (col_Item_ID r)) else None),
           cap_detailedItemId =
             (if truthy_str (current_detailed_item_id st') then current_detailed_item_id st' else None),
           capabilityType = or_None (strip (col_Capability_Type r)),
           validationDate = vd,
           cap_sectorMappingId =
             (if truthy_str (sector_mapping_id st r) then sector_mapping_id st r else None) \<rparr>]
      else capabilities st)"
proof (cases "skipped r")
  case True
  with assms show ?thesis by (simp add: process_row_skipped)
next
  case False
  from process_row_Inr [OF assms False] show ?thesis using False
    by (auto simp: store_capability_def Let_def)
qed

text \<open>
  C4, as the code has it. A row whose detailed-item cell is the sentinel \<^verbatim>\<open>Subtotal\<close>
  leaves the detailed-item slot and the detailed items as they were. The sector slot
  has no sentinel: a row with a blank sector cell leaves it as it was, and a row that
  is not skipped sets it to its own non-blank sector cell. A row that is not skipped
  and has a capability label appends one capability, sentinel or not; any other row
  appends none.
\<close>

theorem subtotal_row_effect:
  assumes "process_row F T st r = Inr st'"
  shows "(detailed_item_id_raw r = ''Subtotal'' \<longrightarrow>
            current_detailed_item_id st' = current_detailed_item_id st
            \<and> detailed_items st' = detailed_items st)
     \<and> (strip (col_Sector_Mapping_ID r) = [] \<longrightarrow>
            current_sector_mapping_id st' = current_sector_mapping_id st)
     \<and> (\<not> skipped r \<longrightarrow> strip (col_Sector_Mapping_ID r) \<noteq> [] \<longrightarrow>
            current_sector_mapping_id st' = Some (strip (col_Sector_Mapping_ID r)))
     \<and> (\<not> skipped r \<longrightarrow> strip (col_Organisation_Capability r) \<noteq> [] \<longrightarrow>
            length (capabilities st') = Suc (length (capabilities st)))
     \<and> (skipped r \<or> strip (col_Organisation_Capability r) = [] \<longrightarrow>
            capabilities st' = capabilities st)"
proof -
  from process_row_capabilities [OF assms] obtain vd where
    c: "capabilities st' =
     (if \<not> skipped r \<and> strip (col_Organisation_Capability r) \<noteq> []
      then capabilities st @
        [\<lparr> organisationCapability = strip (col_Organisation_Capability r),
           cap_organisationId = organisation_id r,
           cap_itemId = (if strip (col_Item_ID r) \<noteq> [] then Some (strip (col_Item_ID r)) else None),
           cap_detailedItemId =
             (if truthy_str (current_detailed_item_id st') then current_detailed_item_id st' else None),
           capabilityType = or_None (strip (col_Capability_Type r)),
           validationDate = vd,
           cap_sectorMappingId =
             (if truthy_str (sector_mapping_id st r) then sector_mapping_id st r else None) \<rparr>]
      else capabilities st)" by blast
  have 1: "detailed_item_id_raw r = ''Subtotal'' \<longrightarrow>
            current_detailed_item_id st' = current_detailed_item_id st
            \<and> detailed_items st' = detailed_items st"
    by (simp add: process_row_current_detailed_item_id [OF assms] process_row_detailed_items [OF assms])
  have 2: "strip (col_Sector_Mapping_ID r) = [] \<longrightarrow>
            current_sector_mapping_id st' = current_sector_mapping_id st"
    by (simp add: process_row_current_sector_mapping_id [OF assms])
  have 3: "\<not> skipped r \<longrightarrow> strip (col_Sector_Mapping_ID r) \<noteq> [] \<longrightarrow>
            current_sector_mapping_id st' = Some (strip (col_Sector_Mapping_ID r))"
    by (simp add: process_row_current_sector_mapping_id [OF assms])
  have 4: "\<not> skipped r \<longrightarrow> strip (col_Organisation_Capability r) \<noteq> [] \<longrightarrow>
            length (capabilities st') = Suc (length (capabilities st))"
    by (simp add: c)
  have 5: "skipped r \<or> strip (col_Organisation_Capability r) = [] \<longrightarrow>
            capabilities st' = capabilities st"
    by (auto simp: c)
  from 1 2 3 4 5 show ?thesis by (intro conjI)
qed

text \<open>A sentinel row with a sector and a capability label, and one with neither.\<close>

theorem subtotal_row_effect_witness:
  "detailed_item_id_raw row_subtotal = ''Subtotal''
   \<and> \<not> skipped row_subtotal
   \<and> strip (col_Sector_Mapping_ID row_subtotal) = ''S2''
   \<and> strip (col_Organisation_Capability row_subtotal) \<noteq> []
   \<and> (\<exists>st'. process_row digits_float nonzero init_state row_subtotal = Inr st'
        \<and> current_detailed_item_id st' = None \<and> current_sector_mapping_id st' = Some ''S2''
        \<and> length (capabilities st') = 1)
   \<and> detailed_item_id_raw row_subtotal_bare = ''Subtotal''
   \<and> strip (col_Sector_Mapping_ID row_subtotal_bare) = []
   \<and> strip (col_Organisation_Capability row_subtotal_bare) = []
   \<and> (\<exists>st'. process_row digits_float nonzero init_state row_subtotal_bare = Inr st'
        \<and> current_detailed_item_id st' = None \<and> current_sector_mapping_id st' = None
        \<and> capabilities st' = [])"
proof -
  have a1: "detailed_item_id_raw row_subtotal = ''Subtotal''" by code_simp
  have a2: "\<not> skipped row_subtotal" by code_simp
  have a3: "strip (col_Sector_Mapping_ID row_subtotal) = ''S2''" by code_simp
  have a4: "strip (col_Organisation_Capability row_subtotal) \<noteq> []" by code_simp
  have b1: "detailed_item_id_raw row_subtotal_bare = ''Subtotal''" by code_simp
  have b3: "strip (col_Sector_Mapping_ID row_subtotal_bare) = []" by code_simp
  have b4: "strip (col_Organisation_Capability row_subtotal_bare) = []" by code_simp
  obtain s1 where p1: "process_row digits_float nonzero init_state row_subtotal = Inr s1"
    using digits_row_total [where r = row_subtotal and st = init_state]
    by (auto simp: example_full_width)
  obtain s2 where p2: "process_row digits_float nonzero init_state row_subtotal_bare = Inr s2"
    using digits_row_total [where r = row_subtotal_bare and st = init_state]
    by (auto simp: example_full_width)
  have i: "current_detailed_item_id (init_state :: int state) = None"
      "current_sector_mapping_id (init_state :: int state) = None"
      "capabilities (init_state :: int state) = []"
    by (simp_all add: init_state_def)
  from subtotal_row_effect [OF p1] a1 a2 a3 a4
  have r1: "current_detailed_item_id s1 = None \<and> current_sector_mapping_id s1 = Some ''S2''
        \<and> length (capabilities s1) = 1" by (simp add: i)
  from subtotal_row_effect [OF p2] b1 b3 b4
  have r2: "current_detailed_item_id s2 = None \<and> current_sector_mapping_id s2 = None
        \<and> capabilities s2 = []" by (simp add: i)
  from a1 a2 a3 a4 b1 b3 b4 p1 p2 r1 r2 show ?thesis by simp
qed

text \<open>
  A row with the sentinel in the detailed-item column, an organisation, a sector and a
  capability label creates a capability and moves the sector slot from absent to its
  sector.
\<close>

theorem subtotal_row_creates_capability:
  "detailed_item_id_raw row_subtotal = ''Subtotal''
   \<and> map_sum id (length \<circ> capabilities) (process_csv digits_float nonzero [row_subtotal]) = Inr 1
   \<and> current_sector_mapping_id (init_state :: int state) = None
   \<and> map_sum id current_sector_mapping_id (process_csv digits_float nonzero [row_subtotal])
        = Inr (Some ''S2'')"
  by code_simp

lemma nearest_preceding_Nil [simp]: "nearest_preceding cell P [] = None"
  by (simp add: nearest_preceding_def)

lemma nearest_preceding_snoc:
  "nearest_preceding cell P (rs @ [r]) =
     (if \<not> skipped r \<and> P (cell r) then Some (cell r) else nearest_preceding cell P rs)"
  by (simp add: nearest_preceding_def)

lemma process_rows_snoc:
  "process_rows F T st (rs @ [r]) = Inr st' \<longleftrightarrow>
     (\<exists>st1. process_rows F T st rs = Inr st1 \<and> process_row F T st1 r = Inr st')"
  by (auto simp: process_rows_append split: sum.splits)

lemma process_rows_current_detailed_item_id:
  "process_rows F T st rs = Inr st' \<Longrightarrow>
     current_detailed_item_id st' =
       (case nearest_preceding detailed_item_id_raw opens_group rs of
          None \<Rightarrow> current_detailed_item_id st | Some v \<Rightarrow> Some v)"
proof (induction rs arbitrary: st' rule: rev_induct)
  case Nil
  then show ?case by simp
next
  case (snoc r rs)
  from snoc.prems obtain st1 where a: "process_rows F T st rs = Inr st1"
    and b: "process_row F T st1 r = Inr st'" by (auto simp: process_rows_snoc)
  show ?case
    by (simp add: process_row_current_detailed_item_id [OF b] snoc.IH [OF a]
          nearest_preceding_snoc opens_group_def)
qed

lemma process_rows_current_sector_mapping_id:
  "process_rows F T st rs = Inr st' \<Longrightarrow>
     current_sector_mapping_id st' =
       (case nearest_preceding (strip \<circ> col_Sector_Mapping_ID) non_blank rs of
          None \<Rightarrow> current_sector_mapping_id st | Some v \<Rightarrow> Some v)"
proof (induction rs arbitrary: st' rule: rev_induct)
  case Nil
  then show ?case by simp
next
  case (snoc r rs)
  from snoc.prems obtain st1 where a: "process_rows F T st rs = Inr st1"
    and b: "process_row F T st1 r = Inr st'" by (auto simp: process_rows_snoc)
  show ?case
    by (simp add: process_row_current_sector_mapping_id [OF b] snoc.IH [OF a]
          nearest_preceding_snoc non_blank_def)
qed

lemma nearest_preceding_counts:
  "nearest_preceding cell P rs = Some v \<Longrightarrow> P v"
proof -
  assume a: "nearest_preceding cell P rs = Some v"
  then obtain r xs where f: "filter (\<lambda>r. \<not> skipped r \<and> P (cell r)) (rev rs) = r # xs" and v: "v = cell r"
    by (auto simp: nearest_preceding_def split: list.splits)
  from f have "r \<in> set (filter (\<lambda>r. \<not> skipped r \<and> P (cell r)) (rev rs))" by simp
  then show "P v" by (simp add: v)
qed

lemma process_csv_slots:
  assumes "process_csv F T rs = Inr st"
  shows "current_detailed_item_id st = nearest_preceding detailed_item_id_raw opens_group rs"
    and "current_sector_mapping_id st = nearest_preceding (strip \<circ> col_Sector_Mapping_ID) non_blank rs"
proof -
  from assms have p: "process_rows F T init_state rs = Inr st" by (simp add: process_csv_def)
  show "current_detailed_item_id st = nearest_preceding detailed_item_id_raw opens_group rs"
    by (simp add: process_rows_current_detailed_item_id [OF p] init_state_def split: option.splits)
  show "current_sector_mapping_id st = nearest_preceding (strip \<circ> col_Sector_Mapping_ID) non_blank rs"
    by (simp add: process_rows_current_sector_mapping_id [OF p] init_state_def split: option.splits)
qed

lemma truthy_str_nearest_preceding:
  assumes "\<And>v. P v \<Longrightarrow> v \<noteq> []"
  shows "(if truthy_str (nearest_preceding cell P rs) then nearest_preceding cell P rs else None)
           = nearest_preceding cell P rs"
proof (cases "nearest_preceding cell P rs")
  case None
  then show ?thesis by simp
next
  case (Some v)
  from nearest_preceding_counts [OF Some] assms have "v \<noteq> []" by blast
  with Some show ?thesis by (simp add: truthy_str_def)
qed

lemma process_row_effective_ids:
  assumes "process_csv F T rs = Inr st" and "process_row F T st r = Inr st'" and "\<not> skipped r"
  shows "current_detailed_item_id st' =
           (if opens_group (detailed_item_id_raw r) then Some (detailed_item_id_raw r)
            else nearest_preceding detailed_item_id_raw opens_group rs)"
    and "sector_mapping_id st r =
           (if strip (col_Sector_Mapping_ID r) \<noteq> [] then Some (strip (col_Sector_Mapping_ID r))
            else nearest_preceding (strip \<circ> col_Sector_Mapping_ID) non_blank rs)"
    and "strip (col_Organisation_Capability r) \<noteq> [] \<Longrightarrow>
            \<exists>c. capabilities st' = capabilities st @ [c]
               \<and> cap_detailedItemId c = current_detailed_item_id st'
               \<and> cap_sectorMappingId c = sector_mapping_id st r"
proof -
  note d = process_row_current_detailed_item_id [OF assms(2)]
  note sl = process_csv_slots [OF assms(1)]
  show 1: "current_detailed_item_id st' =
           (if opens_group (detailed_item_id_raw r) then Some (detailed_item_id_raw r)
            else nearest_preceding detailed_item_id_raw opens_group rs)"
    using d sl(1) assms(3) by (auto simp: opens_group_def)
  show 2: "sector_mapping_id st r =
           (if strip (col_Sector_Mapping_ID r) \<noteq> [] then Some (strip (col_Sector_Mapping_ID r))
            else nearest_preceding (strip \<circ> col_Sector_Mapping_ID) non_blank rs)"
    using sl(2) by (simp add: sector_mapping_id_def)
  have td: "(if truthy_str (current_detailed_item_id st') then current_detailed_item_id st' else None)
              = current_detailed_item_id st'"
  proof (cases "opens_group (detailed_item_id_raw r)")
    case True
    with 1 show ?thesis by (simp add: truthy_str_def opens_group_def)
  next
    case False
    with 1 have e: "current_detailed_item_id st' = nearest_preceding detailed_item_id_raw opens_group rs"
      by simp
    have "\<And>v. opens_group v \<Longrightarrow> v \<noteq> []" by (simp add: opens_group_def)
    from truthy_str_nearest_preceding [of opens_group detailed_item_id_raw rs, OF this]
    show ?thesis by (simp only: e)
  qed
  have ts: "(if truthy_str (sector_mapping_id st r) then sector_mapping_id st r else None)
              = sector_mapping_id st r"
  proof (cases "strip (col_Sector_Mapping_ID r) = []")
    case True
    with 2 have e: "sector_mapping_id st r = nearest_preceding (strip \<circ> col_Sector_Mapping_ID) non_blank rs"
      by simp
    have "\<And>v. non_blank v \<Longrightarrow> v \<noteq> []" by (simp add: non_blank_def)
    from truthy_str_nearest_preceding [of non_blank "strip \<circ> col_Sector_Mapping_ID" rs, OF this]
    show ?thesis by (simp only: e)
  next
    case False
    with 2 show ?thesis by (simp add: truthy_str_def)
  qed
  from process_row_capabilities [OF assms(2)] obtain vd where
    c: "capabilities st' =
     (if \<not> skipped r \<and> strip (col_Organisation_Capability r) \<noteq> []
      then capabilities st @
        [\<lparr> organisationCapability = strip (col_Organisation_Capability r),
           cap_organisationId = organisation_id r,
           cap_itemId = (if strip (col_Item_ID r) \<noteq> [] then Some (strip (col_Item_ID r)) else None),
           cap_detailedItemId =
             (if truthy_str (current_detailed_item_id st') then current_detailed_item_id st' else None),
           capabilityType = or_None (strip (col_Capability_Type r)),
           validationDate = vd,
           cap_sectorMappingId =
             (if truthy_str (sector_mapping_id st r) then sector_mapping_id st r else None) \<rparr>]
      else capabilities st)" by blast
  show "strip (col_Organisation_Capability r) \<noteq> [] \<Longrightarrow>
            \<exists>c. capabilities st' = capabilities st @ [c]
               \<and> cap_detailedItemId c = current_detailed_item_id st'
               \<and> cap_sectorMappingId c = sector_mapping_id st r"
    using assms(3) by (simp add: c td ts)
qed

lemma process_rows_capabilities_none:
  "process_rows F T st rs = Inr st' \<Longrightarrow>
   \<forall>r \<in> set rs. skipped r \<or> strip (col_Organisation_Capability r) = [] \<Longrightarrow>
   capabilities st' = capabilities st"
proof (induction rs arbitrary: st)
  case Nil
  then show ?case by simp
next
  case (Cons r rs)
  from Cons.prems(1) obtain st1 where a: "process_row F T st r = Inr st1"
    and b: "process_rows F T st1 rs = Inr st'" by (auto split: sum.splits)
  from process_row_capabilities [OF a] Cons.prems(2) have "capabilities st1 = capabilities st"
    by auto
  with Cons.IH [OF b] Cons.prems(2) show ?case by simp
qed

text \<open>
  C6, as the code has it. Let \<open>rs\<close> be the rows of the file before a row \<open>r\<close> that is
  not skipped. The local \<^verbatim>\<open>detailed_item_id\<close> of line 60 is the detailed-item slot after
  \<open>r\<close>: when the detailed-item cell of \<open>r\<close> opens no group (it is blank or the
  sentinel) it is the cell of the nearest preceding processed row whose cell is neither
  blank nor the sentinel, absent when there is none; otherwise it is the cell of \<open>r\<close>.
  The local \<^verbatim>\<open>sector_mapping_id\<close> is, when the sector cell of \<open>r\<close> is blank, the cell
  of the nearest preceding processed row whose sector cell is not blank (no sentinel is
  excluded in this column), absent when there is none; otherwise the cell of \<open>r\<close>. A
  capability created by \<open>r\<close> stores both values.
\<close>

theorem carry_forward_resolution:
  assumes "process_csv F T rs = Inr st" and "process_row F T st r = Inr st'" and "\<not> skipped r"
  shows "(\<not> opens_group (detailed_item_id_raw r) \<longrightarrow>
            current_detailed_item_id st' = nearest_preceding detailed_item_id_raw opens_group rs)
     \<and> (opens_group (detailed_item_id_raw r) \<longrightarrow>
            current_detailed_item_id st' = Some (detailed_item_id_raw r))
     \<and> (strip (col_Sector_Mapping_ID r) = [] \<longrightarrow>
            sector_mapping_id st r = nearest_preceding (strip \<circ> col_Sector_Mapping_ID) non_blank rs)
     \<and> (strip (col_Sector_Mapping_ID r) \<noteq> [] \<longrightarrow>
            sector_mapping_id st r = Some (strip (col_Sector_Mapping_ID r)))
     \<and> (strip (col_Organisation_Capability r) \<noteq> [] \<longrightarrow>
            (\<exists>c. capabilities st' = capabilities st @ [c]
               \<and> cap_detailedItemId c = current_detailed_item_id st'
               \<and> cap_sectorMappingId c = sector_mapping_id st r))"
  using process_row_effective_ids [OF assms] by simp

text \<open>
  The rows (A), (blank), (blank), (B) of a grouped column: both blank rows resolve to A
  and the row carrying B resolves to B.
\<close>

theorem carry_forward_resolution_witness:
  "(\<exists>st st'. process_csv digits_float nonzero [row_group_A] = Inr st
       \<and> process_row digits_float nonzero st row_group_blank = Inr st'
       \<and> current_detailed_item_id st' = Some ''A''
       \<and> sector_mapping_id st row_group_blank = Some ''S1''
       \<and> (\<exists>c. capabilities st' = capabilities st @ [c]
             \<and> cap_detailedItemId c = Some ''A'' \<and> cap_sectorMappingId c = Some ''S1''))
   \<and> (\<exists>st st'. process_csv digits_float nonzero [row_group_A, row_group_blank] = Inr st
       \<and> process_row digits_float nonzero st row_group_blank = Inr st'
       \<and> current_detailed_item_id st' = Some ''A'')
   \<and> (\<exists>st st'. process_csv digits_float nonzero [row_group_A, row_group_blank, row_group_blank] = Inr st
       \<and> process_row digits_float nonzero st row_group_B = Inr st'
       \<and> current_detailed_item_id st' = Some ''B''
       \<and> sector_mapping_id st row_group_B = Some ''S2'')"
proof -
  have nb: "\<not> skipped row_group_blank" "\<not> opens_group (detailed_item_id_raw row_group_blank)"
      "strip (col_Sector_Mapping_ID row_group_blank) = []"
      "strip (col_Organisation_Capability row_group_blank) \<noteq> []"
    by code_simp+
  have nB: "\<not> skipped row_group_B" "opens_group (detailed_item_id_raw row_group_B)"
      "detailed_item_id_raw row_group_B = ''B''"
      "strip (col_Sector_Mapping_ID row_group_B) = ''S2''"
    by code_simp+
  have n1: "nearest_preceding detailed_item_id_raw opens_group [row_group_A] = Some ''A''"
      "nearest_preceding (strip \<circ> col_Sector_Mapping_ID) non_blank [row_group_A] = Some ''S1''"
      "nearest_preceding detailed_item_id_raw opens_group [row_group_A, row_group_blank] = Some ''A''"
    by code_simp+
  obtain s1 where p1: "process_csv digits_float nonzero [row_group_A] = Inr s1"
    unfolding process_csv_def
    using process_rows_total [OF digits_float_errors, where rs = "[row_group_A]" and st = init_state
        and T = nonzero]
    by (auto simp: example_full_width)
  obtain s1' where q1: "process_row digits_float nonzero s1 row_group_blank = Inr s1'"
    using digits_row_total [where r = row_group_blank and st = s1]
    by (auto simp: example_full_width)
  obtain s2 where p2: "process_csv digits_float nonzero [row_group_A, row_group_blank] = Inr s2"
    unfolding process_csv_def
    using process_rows_total [OF digits_float_errors, where rs = "[row_group_A, row_group_blank]" and st = init_state
        and T = nonzero]
    by (auto simp: example_full_width)
  obtain s2' where q2: "process_row digits_float nonzero s2 row_group_blank = Inr s2'"
    using digits_row_total [where r = row_group_blank and st = s2]
    by (auto simp: example_full_width)
  obtain s3 where p3: "process_csv digits_float nonzero [row_group_A, row_group_blank, row_group_blank] = Inr s3"
    unfolding process_csv_def
    using process_rows_total [OF digits_float_errors, where rs = "[row_group_A, row_group_blank, row_group_blank]" and st = init_state
        and T = nonzero]
    by (auto simp: example_full_width)
  obtain s3' where q3: "process_row digits_float nonzero s3 row_group_B = Inr s3'"
    using digits_row_total [where r = row_group_B and st = s3]
    by (auto simp: example_full_width)
  note t1 = carry_forward_resolution [OF p1 q1 nb(1)]
  note t2 = carry_forward_resolution [OF p2 q2 nb(1)]
  note t3 = carry_forward_resolution [OF p3 q3 nB(1)]
  have a1: "current_detailed_item_id s1' = Some ''A''"
    using t1 [THEN conjunct1] nb(2) n1(1) by simp
  have a2: "sector_mapping_id s1 row_group_blank = Some ''S1''"
    using t1 [THEN conjunct2, THEN conjunct2, THEN conjunct1] nb(3) n1(2) by simp
  have a3: "\<exists>c. capabilities s1' = capabilities s1 @ [c]
             \<and> cap_detailedItemId c = Some ''A'' \<and> cap_sectorMappingId c = Some ''S1''"
    using t1 [THEN conjunct2, THEN conjunct2, THEN conjunct2, THEN conjunct2] nb(4) a1 a2 by simp
  have b1: "current_detailed_item_id s2' = Some ''A''"
    using t2 [THEN conjunct1] nb(2) n1(3) by simp
  have c1: "current_detailed_item_id s3' = Some ''B''"
    using t3 [THEN conjunct2, THEN conjunct1] nB(2) nB(3) by simp
  have c2: "sector_mapping_id s3 row_group_B = Some ''S2''"
    using t3 [THEN conjunct2, THEN conjunct2, THEN conjunct2, THEN conjunct1] nB(4) by simp
  from p1 q1 a1 a2 a3 have w1: "\<exists>st st'. process_csv digits_float nonzero [row_group_A] = Inr st
       \<and> process_row digits_float nonzero st row_group_blank = Inr st'
       \<and> current_detailed_item_id st' = Some ''A''
       \<and> sector_mapping_id st row_group_blank = Some ''S1''
       \<and> (\<exists>c. capabilities st' = capabilities st @ [c]
             \<and> cap_detailedItemId c = Some ''A'' \<and> cap_sectorMappingId c = Some ''S1'')"
    by blast
  from p2 q2 b1 have w2: "\<exists>st st'. process_csv digits_float nonzero [row_group_A, row_group_blank] = Inr st
       \<and> process_row digits_float nonzero st row_group_blank = Inr st'
       \<and> current_detailed_item_id st' = Some ''A''" by blast
  from p3 q3 c1 c2 have w3: "\<exists>st st'. process_csv digits_float nonzero [row_group_A, row_group_blank, row_group_blank] = Inr st
       \<and> process_row digits_float nonzero st row_group_B = Inr st'
       \<and> current_detailed_item_id st' = Some ''B''
       \<and> sector_mapping_id st row_group_B = Some ''S2''" by blast
  from w1 w2 w3 show ?thesis by (intro conjI)
qed

text \<open>
  Sector cells S1, then the sentinel, then blank: the nearest preceding sector cell
  that is neither blank nor the sentinel is S1, and the capability of the blank row
  stores the sentinel.
\<close>

theorem sector_slot_takes_sentinel:
  "nearest_preceding (strip \<circ> col_Sector_Mapping_ID) opens_group [row_group_A, row_sector_subtotal]
     = Some ''S1''
   \<and> strip (col_Sector_Mapping_ID row_group_blank) = []
   \<and> map_sum id (map cap_sectorMappingId \<circ> capabilities)
        (process_csv digits_float nonzero [row_group_A, row_sector_subtotal, row_group_blank])
     = Inr [Some ''Subtotal'']"
proof -
  have n: "nearest_preceding (strip \<circ> col_Sector_Mapping_ID) opens_group [row_group_A, row_sector_subtotal]
     = Some ''S1''" by code_simp
  have nb: "\<not> skipped row_group_blank" 
      "strip (col_Sector_Mapping_ID row_group_blank) = []"
      "strip (col_Organisation_Capability row_group_blank) \<noteq> []"
    by code_simp+
  have m: "nearest_preceding (strip \<circ> col_Sector_Mapping_ID) non_blank [row_group_A, row_sector_subtotal]
     = Some ''Subtotal''" by code_simp
  have e: "\<forall>r \<in> set [row_group_A, row_sector_subtotal]. skipped r \<or> strip (col_Organisation_Capability r) = []"
  proof -
    have "strip (col_Organisation_Capability row_group_A) = []" by code_simp
    moreover have "strip (col_Organisation_Capability row_sector_subtotal) = []" by code_simp
    ultimately show ?thesis by simp
  qed
  obtain s2 where p2: "process_csv digits_float nonzero [row_group_A, row_sector_subtotal] = Inr s2"
    unfolding process_csv_def
    using process_rows_total [OF digits_float_errors, where rs = "[row_group_A, row_sector_subtotal]" and st = init_state
        and T = nonzero]
    by (auto simp: example_full_width)
  obtain s3 where q: "process_row digits_float nonzero s2 row_group_blank = Inr s3"
    using digits_row_total [where r = row_group_blank and st = s2]
    by (auto simp: example_full_width)
  from p2 have "capabilities s2 = capabilities (init_state :: int state)"
    unfolding process_csv_def by (rule process_rows_capabilities_none [OF _ e])
  then have c2: "capabilities s2 = []" by (simp add: init_state_def)
  from process_row_effective_ids(2) [OF p2 q nb(1)] nb(2) m
  have sid: "sector_mapping_id s2 row_group_blank = Some ''Subtotal''" by simp
  from process_row_effective_ids(3) [OF p2 q nb(1) nb(3)] obtain c where
    c3: "capabilities s3 = capabilities s2 @ [c]" and "cap_sectorMappingId c = sector_mapping_id s2 row_group_blank"
    by blast
  with sid c2 have k: "map cap_sectorMappingId (capabilities s3) = [Some ''Subtotal'']" by simp
  have "process_rows digits_float nonzero init_state ([row_group_A, row_sector_subtotal] @ [row_group_blank]) = Inr s3"
    using p2 q unfolding process_csv_def process_rows_snoc by blast
  then have "process_csv digits_float nonzero [row_group_A, row_sector_subtotal, row_group_blank] = Inr s3"
    by (simp add: process_csv_def)
  with k n nb(2) show ?thesis by simp
qed

lemma last_write_Nil [simp]: "last_write key name [] k = None"
  by (simp add: last_write_def)

lemma last_write_snoc:
  assumes "\<And>i. i < length rs \<Longrightarrow> key (rs @ [r]) i = key rs i"
  shows "last_write key name (rs @ [r]) k =
     (if \<not> skipped r \<and> key (rs @ [r]) (length rs) = Some k \<and> name r \<noteq> []
      then Some (name r) else last_write key name rs k)"
proof -
  define xs where "xs = filter (\<lambda>i. \<not> skipped (rs ! i) \<and> key rs i = Some k \<and> name (rs ! i) \<noteq> [])
          (rev [0..<length rs])"
  have f: "filter (\<lambda>i. \<not> skipped ((rs @ [r]) ! i) \<and> key (rs @ [r]) i = Some k \<and> name ((rs @ [r]) ! i) \<noteq> [])
          (rev [0..<length rs]) = xs"
    unfolding xs_def by (rule filter_cong) (auto simp: assms nth_append)
  have h: "(case xs of [] \<Rightarrow> None | i # _ \<Rightarrow> Some (name ((rs @ [r]) ! i)))
         = (case xs of [] \<Rightarrow> None | i # _ \<Rightarrow> Some (name (rs ! i)))"
  proof (cases xs)
    case Nil
    then show ?thesis by simp
  next
    case (Cons i ys)
    then have "i \<in> set xs" by simp
    then have "i < length rs" by (simp add: xs_def)
    with Cons show ?thesis by (simp add: nth_append)
  qed
  have l: "last_write key name rs k = (case xs of [] \<Rightarrow> None | i # _ \<Rightarrow> Some (name (rs ! i)))"
    by (simp add: last_write_def xs_def)
  have "last_write key name (rs @ [r]) k =
     (if \<not> skipped r \<and> key (rs @ [r]) (length rs) = Some k \<and> name r \<noteq> []
      then Some (name r) else (case xs of [] \<Rightarrow> None | i # _ \<Rightarrow> Some (name ((rs @ [r]) ! i))))"
    by (simp add: last_write_def f)
  then show ?thesis by (simp only: h l)
qed

lemma item_key_append: "i < length rs \<Longrightarrow> item_key (rs @ [r]) i = item_key rs i"
  by (simp add: item_key_def nth_append)

lemma sector_key_append: "i < length rs \<Longrightarrow> sector_key (rs @ [r]) i = sector_key rs i"
  by (simp add: sector_key_def nth_append)

lemma process_csv_snoc:
  "process_csv F T (rs @ [r]) = Inr st' \<longleftrightarrow>
     (\<exists>st. process_csv F T rs = Inr st \<and> process_row F T st r = Inr st')"
  by (simp add: process_csv_def process_rows_snoc)

lemma process_csv_items:
  "process_csv F T rs = Inr st \<Longrightarrow> items st k = last_write item_key item_name rs k"
proof (induction rs arbitrary: st rule: rev_induct)
  case Nil
  then show ?case by (auto simp: process_csv_def init_state_def)
next
  case (snoc r rs)
  from snoc.prems obtain st1 where a: "process_csv F T rs = Inr st1"
    and b: "process_row F T st1 r = Inr st" by (auto simp: process_csv_snoc)
  have k: "item_key (rs @ [r]) (length rs) = or_None (strip (col_Item_ID r))"
    by (simp add: item_key_def)
  note pi = process_row_items [OF b, folded item_name_def]
  show ?case
    using snoc.IH [OF a]
    by (auto simp add: last_write_snoc [of rs item_key, OF item_key_append] k
          pi or_None_def)
qed

lemma process_csv_sectors:
  "process_csv F T rs = Inr st \<Longrightarrow> sectors st k = last_write sector_key sector_name rs k"
proof (induction rs arbitrary: st rule: rev_induct)
  case Nil
  then show ?case by (auto simp: process_csv_def init_state_def)
next
  case (snoc r rs)
  from snoc.prems obtain st1 where a: "process_csv F T rs = Inr st1"
    and b: "process_row F T st1 r = Inr st" by (auto simp: process_csv_snoc)
  have k: "sector_key (rs @ [r]) (length rs) = sector_mapping_id st1 r"
    by (simp add: sector_key_def sector_mapping_id_def process_csv_slots(2) [OF a])
  have n: "sector_mapping_id st1 r \<noteq> Some []"
  proof (cases "strip (col_Sector_Mapping_ID r) = []")
    case True
    then have e: "sector_mapping_id st1 r = nearest_preceding (strip \<circ> col_Sector_Mapping_ID) non_blank rs"
      by (simp add: sector_mapping_id_def process_csv_slots(2) [OF a])
    show ?thesis
    proof
      assume "sector_mapping_id st1 r = Some []"
      with e have "nearest_preceding (strip \<circ> col_Sector_Mapping_ID) non_blank rs = Some []" by simp
      from nearest_preceding_counts [OF this] show False by (simp add: non_blank_def)
    qed
  next
    case False
    then show ?thesis by (simp add: sector_mapping_id_def)
  qed
  note ps = process_row_sectors [OF b, folded sector_name_def]
  show ?case
    using n snoc.IH [OF a]
    by (auto simp add: last_write_snoc [of rs sector_key, OF sector_key_append] k
          ps split: option.splits)
qed

text \<open>
  C2, as the code has it: the last write wins. After a pass that returns, the items map
  a key to the name of the last processed row that carries this item id with a
  non-blank name, and the sectors map a key to the name of the last processed row whose
  sector id (its own, or the one carried forward to it) is this key and whose sector
  name is not blank; a key that no such row carries is absent.
\<close>

theorem item_and_sector_names_last_write:
  assumes "process_csv F T rs = Inr st"
  shows "items st k = last_write item_key item_name rs k
       \<and> sectors st k = last_write sector_key sector_name rs k"
  using process_csv_items [OF assms] process_csv_sectors [OF assms] by simp

text \<open>Two rows with item I1 and sector S1 (carried forward to the second) and different names.\<close>

theorem item_and_sector_names_last_write_witness:
  "\<exists>st. process_csv digits_float nonzero [row_item_foo, row_item_bar] = Inr st
     \<and> items st ''I1'' = Some ''Bar'' \<and> sectors st ''S1'' = Some ''Rail''"
proof -
  obtain st where p: "process_csv digits_float nonzero [row_item_foo, row_item_bar] = Inr st"
    unfolding process_csv_def
    using process_rows_total [OF digits_float_errors, where rs = "[row_item_foo, row_item_bar]" and st = init_state
        and T = nonzero]
    by (auto simp: example_full_width)
  have a: "last_write item_key item_name [row_item_foo, row_item_bar] ''I1'' = Some ''Bar''"
    by code_simp
  have b: "last_write sector_key sector_name [row_item_foo, row_item_bar] ''S1'' = Some ''Rail''"
    by code_simp
  from item_and_sector_names_last_write [OF p, of "''I1''"] a
  have 1: "items st ''I1'' = Some ''Bar''" by simp
  from item_and_sector_names_last_write [OF p, of "''S1''"] b
  have 2: "sectors st ''S1'' = Some ''Rail''" by simp
  from p 1 2 show ?thesis by blast
qed

text \<open>
  The same item id and the same sector id on two rows with differing names: both
  collections end with the name of the second row, not with the first observed name.
\<close>

theorem item_and_sector_names_overwritten:
  "item_key [row_item_foo, row_item_bar] 0 = Some ''I1'' \<and> item_name row_item_foo = ''Foo''
   \<and> item_key [row_item_foo, row_item_bar] 1 = Some ''I1'' \<and> item_name row_item_bar = ''Bar''
   \<and> map_sum id (at_key ''I1'' \<circ> items) (process_csv digits_float nonzero [row_item_foo, row_item_bar])
        = Inr (Some ''Bar'')
   \<and> sector_key [row_item_foo, row_item_bar] 0 = Some ''S1'' \<and> sector_name row_item_foo = ''Mining''
   \<and> sector_key [row_item_foo, row_item_bar] 1 = Some ''S1'' \<and> sector_name row_item_bar = ''Rail''
   \<and> map_sum id (at_key ''S1'' \<circ> sectors) (process_csv digits_float nonzero [row_item_foo, row_item_bar])
        = Inr (Some ''Rail'')"
proof -
  obtain st where p: "process_csv digits_float nonzero [row_item_foo, row_item_bar] = Inr st"
    unfolding process_csv_def
    using process_rows_total [OF digits_float_errors, where rs = "[row_item_foo, row_item_bar]" and st = init_state
        and T = nonzero]
    by (auto simp: example_full_width)
  have a: "last_write item_key item_name [row_item_foo, row_item_bar] ''I1'' = Some ''Bar''"
    by code_simp
  have b: "last_write sector_key sector_name [row_item_foo, row_item_bar] ''S1'' = Some ''Rail''"
    by code_simp
  have k: "item_key [row_item_foo, row_item_bar] 0 = Some ''I1''"
      "item_name row_item_foo = ''Foo''"
      "item_key [row_item_foo, row_item_bar] 1 = Some ''I1''"
      "item_name row_item_bar = ''Bar''"
      "sector_key [row_item_foo, row_item_bar] 0 = Some ''S1''"
      "sector_name row_item_foo = ''Mining''"
      "sector_key [row_item_foo, row_item_bar] 1 = Some ''S1''"
      "sector_name row_item_bar = ''Rail''"
    by code_simp+
  have 1: "map_sum id (at_key ''I1'' \<circ> items) (process_csv digits_float nonzero [row_item_foo, row_item_bar])
        = Inr (Some ''Bar'')"
    using process_csv_items [OF p, of "''I1''"] a by (simp add: p at_key_def)
  have 2: "map_sum id (at_key ''S1'' \<circ> sectors) (process_csv digits_float nonzero [row_item_foo, row_item_bar])
        = Inr (Some ''Rail'')"
    using process_csv_sectors [OF p, of "''S1''"] b by (simp add: p at_key_def)
  from k 1 2 show ?thesis by (intro conjI)
qed

text \<open>
  C8 at three rows: detailed item D1 (name Foo, item I1), then D2, then D1 again (name
  Baz, item I2). After the first row D1 is registered with Foo and I1. After the third
  the slot is D1 again, and the entry of D1 holds Baz and I2: the registration at the
  reopened group is not a no-op, it replaces the name and the item.
\<close>

theorem reopened_group_overwrites_detailed_item:
  "map_sum id (at_key ''D1'' \<circ> detailed_items) (process_csv digits_float nonzero [row_detail_first])
     = Inr (Some \<lparr>detailedItemName = ''Foo'', di_itemId = Some ''I1''\<rparr>)
   \<and> map_sum id (at_key ''D1'' \<circ> detailed_items)
        (process_csv digits_float nonzero [row_detail_first, row_detail_other, row_detail_again])
     = Inr (Some \<lparr>detailedItemName = ''Baz'', di_itemId = Some ''I2''\<rparr>)
   \<and> map_sum id current_detailed_item_id
        (process_csv digits_float nonzero [row_detail_first, row_detail_other, row_detail_again])
     = Inr (Some ''D1'')"
proof -
  obtain s1 where p1: "process_row digits_float nonzero init_state row_detail_first = Inr s1"
    using digits_row_total [where r = row_detail_first and st = init_state]
    by (auto simp: example_full_width)
  obtain s2 where p2: "process_row digits_float nonzero s1 row_detail_other = Inr s2"
    using digits_row_total [where r = row_detail_other and st = s1]
    by (auto simp: example_full_width)
  obtain s3 where p3: "process_row digits_float nonzero s2 row_detail_again = Inr s3"
    using digits_row_total [where r = row_detail_again and st = s2]
    by (auto simp: example_full_width)
  have f1: "\<not> skipped row_detail_first" "detailed_item_id_raw row_detail_first = ''D1''"
      "strip (col_Detailed_Item_Name row_detail_first) = ''Foo''"
      "strip (col_Item_ID row_detail_first) = ''I1''"
    by code_simp+
  have f2: "\<not> skipped row_detail_other" "detailed_item_id_raw row_detail_other = ''D2''"
      "strip (col_Detailed_Item_Name row_detail_other) = ''Bar''"
      "strip (col_Item_ID row_detail_other) = []"
    by code_simp+
  have f3: "\<not> skipped row_detail_again" "detailed_item_id_raw row_detail_again = ''D1''"
      "strip (col_Detailed_Item_Name row_detail_again) = ''Baz''"
      "strip (col_Item_ID row_detail_again) = ''I2''"
    by code_simp+
  have d1: "detailed_items s1 ''D1'' = Some \<lparr>detailedItemName = ''Foo'', di_itemId = Some ''I1''\<rparr>"
    by (simp add: process_row_detailed_items [OF p1] f1)
  have d3: "detailed_items s3 ''D1'' = Some \<lparr>detailedItemName = ''Baz'', di_itemId = Some ''I2''\<rparr>"
    by (simp add: process_row_detailed_items [OF p3] f3)
  have c3: "current_detailed_item_id s3 = Some ''D1''"
    by (simp add: process_row_current_detailed_item_id [OF p3] f3)
  have r1: "process_csv digits_float nonzero [row_detail_first] = Inr s1"
    by (simp add: process_csv_def p1)
  have r3: "process_csv digits_float nonzero [row_detail_first, row_detail_other, row_detail_again] = Inr s3"
    by (simp add: process_csv_def p1 p2 p3)
  show ?thesis by (simp add: r1 r3 d1 d3 c3 at_key_def)
qed

lemma process_row_capabilities_set:
  assumes "process_row F T st r = Inr st'" and "c \<in> set (capabilities st')"
  shows "c \<in> set (capabilities st) \<or>
     (\<not> skipped r
      \<and> cap_itemId c = (if strip (col_Item_ID r) \<noteq> [] then Some (strip (col_Item_ID r)) else None)
      \<and> cap_detailedItemId c =
           (if truthy_str (current_detailed_item_id st') then current_detailed_item_id st' else None)
      \<and> cap_sectorMappingId c =
           (if truthy_str (sector_mapping_id st r) then sector_mapping_id st r else None))"
proof -
  from process_row_capabilities [OF assms(1)] obtain vd where
    c: "capabilities st' =
     (if \<not> skipped r \<and> strip (col_Organisation_Capability r) \<noteq> []
      then capabilities st @
        [\<lparr> organisationCapability = strip (col_Organisation_Capability r),
           cap_organisationId = organisation_id r,
           cap_itemId = (if strip (col_Item_ID r) \<noteq> [] then Some (strip (col_Item_ID r)) else None),
           cap_detailedItemId =
             (if truthy_str (current_detailed_item_id st') then current_detailed_item_id st' else None),
           capabilityType = or_None (strip (col_Capability_Type r)),
           validationDate = vd,
           cap_sectorMappingId =
             (if truthy_str (sector_mapping_id st r) then sector_mapping_id st r else None) \<rparr>]
      else capabilities st)" by blast
  from assms(2) show ?thesis unfolding c by (auto split: if_splits)
qed

lemma process_row_item_refs_ok:
  assumes p: "process_row F T st r = Inr st'" and i: "item_refs_ok st" and n: "item_named r"
  shows "item_refs_ok st'"
  unfolding item_refs_ok_def
proof (intro ballI allI impI)
  fix c i' assume c: "c \<in> set (capabilities st')" and e: "cap_itemId c = Some i'"
  have m: "dom (items st) \<subseteq> dom (items st')"
    by (auto simp: process_row_items [OF p])
  from process_row_capabilities_set [OF p c] show "i' \<in> dom (items st')"
  proof
    assume "c \<in> set (capabilities st)"
    with i e m show ?thesis unfolding item_refs_ok_def by blast
  next
    assume a: "\<not> skipped r
      \<and> cap_itemId c = (if strip (col_Item_ID r) \<noteq> [] then Some (strip (col_Item_ID r)) else None)
      \<and> cap_detailedItemId c =
           (if truthy_str (current_detailed_item_id st') then current_detailed_item_id st' else None)
      \<and> cap_sectorMappingId c =
           (if truthy_str (sector_mapping_id st r) then sector_mapping_id st r else None)"
    with e have "strip (col_Item_ID r) \<noteq> []" "i' = strip (col_Item_ID r)"
      by (auto split: if_splits)
    with n a show ?thesis by (simp add: process_row_items [OF p] item_named_def)
  qed
qed

lemma process_row_detailed_item_refs_ok:
  assumes p: "process_row F T st r = Inr st'" and i: "detailed_item_refs_ok st"
    and n: "detailed_item_named r"
  shows "detailed_item_refs_ok st'"
proof -
  have m: "dom (detailed_items st) \<subseteq> dom (detailed_items st')"
    by (auto simp: process_row_detailed_items [OF p])
  have s: "\<forall>d. current_detailed_item_id st' = Some d \<longrightarrow> d \<in> dom (detailed_items st')"
    using i n m
    by (auto simp: process_row_current_detailed_item_id [OF p] process_row_detailed_items [OF p]
          detailed_item_refs_ok_def detailed_item_named_def opens_group_def split: if_splits)
  have "\<forall>c \<in> set (capabilities st'). \<forall>d. cap_detailedItemId c = Some d \<longrightarrow> d \<in> dom (detailed_items st')"
  proof (intro ballI allI impI)
    fix c d assume c: "c \<in> set (capabilities st')" and e: "cap_detailedItemId c = Some d"
    from process_row_capabilities_set [OF p c] show "d \<in> dom (detailed_items st')"
    proof
      assume "c \<in> set (capabilities st)"
      with i e m show ?thesis unfolding detailed_item_refs_ok_def by blast
    next
      assume a: "\<not> skipped r
      \<and> cap_itemId c = (if strip (col_Item_ID r) \<noteq> [] then Some (strip (col_Item_ID r)) else None)
      \<and> cap_detailedItemId c =
           (if truthy_str (current_detailed_item_id st') then current_detailed_item_id st' else None)
      \<and> cap_sectorMappingId c =
           (if truthy_str (sector_mapping_id st r) then sector_mapping_id st r else None)"
      with e have "current_detailed_item_id st' = Some d" by (auto split: if_splits)
      with s show ?thesis by blast
    qed
  qed
  with s show ?thesis by (simp add: detailed_item_refs_ok_def)
qed

lemma process_row_sector_refs_ok:
  assumes p: "process_row F T st r = Inr st'" and i: "sector_refs_ok st"
    and n: "sector_named r"
  shows "sector_refs_ok st'"
proof -
  have m: "dom (sectors st) \<subseteq> dom (sectors st')"
    by (auto simp: process_row_sectors [OF p] split: option.splits)
  have s: "\<forall>s. current_sector_mapping_id st' = Some s \<longrightarrow> s \<in> dom (sectors st')"
    using i n m
    by (auto simp: process_row_current_sector_mapping_id [OF p] process_row_sectors [OF p]
          sector_refs_ok_def sector_named_def sector_mapping_id_def split: if_splits)
  have t: "\<not> skipped r \<Longrightarrow> sector_mapping_id st r = current_sector_mapping_id st'"
    by (simp add: process_row_current_sector_mapping_id [OF p] sector_mapping_id_def)
  have "\<forall>c \<in> set (capabilities st'). \<forall>s. cap_sectorMappingId c = Some s \<longrightarrow> s \<in> dom (sectors st')"
  proof (intro ballI allI impI)
    fix c d assume c: "c \<in> set (capabilities st')" and e: "cap_sectorMappingId c = Some d"
    from process_row_capabilities_set [OF p c] show "d \<in> dom (sectors st')"
    proof
      assume "c \<in> set (capabilities st)"
      with i e m show ?thesis unfolding sector_refs_ok_def by blast
    next
      assume a: "\<not> skipped r
      \<and> cap_itemId c = (if strip (col_Item_ID r) \<noteq> [] then Some (strip (col_Item_ID r)) else None)
      \<and> cap_detailedItemId c =
           (if truthy_str (current_detailed_item_id st') then current_detailed_item_id st' else None)
      \<and> cap_sectorMappingId c =
           (if truthy_str (sector_mapping_id st r) then sector_mapping_id st r else None)"
      with e t have "current_sector_mapping_id st' = Some d" by (auto split: if_splits)
      with s show ?thesis by blast
    qed
  qed
  with s show ?thesis by (simp add: sector_refs_ok_def)
qed

lemma process_rows_invariant:
  assumes step: "\<And>st r st'. process_row F T st r = Inr st' \<Longrightarrow> I st \<Longrightarrow> N r \<Longrightarrow> I st'"
  shows "process_rows F T st rs = Inr st' \<Longrightarrow> I st \<Longrightarrow> \<forall>r \<in> set rs. N r \<Longrightarrow> I st'"
proof (induction rs arbitrary: st)
  case Nil
  then show ?case by simp
next
  case (Cons r rs)
  from Cons.prems(1) obtain st1 where a: "process_row F T st r = Inr st1"
    and b: "process_rows F T st1 rs = Inr st'" by (auto split: sum.splits)
  from step [OF a Cons.prems(2)] Cons.prems(3) have "I st1" by simp
  from Cons.IH [OF b this] Cons.prems(3) show ?case by simp
qed

text \<open>
  C9, as the code has it. After a pass that returns, the organisation of every
  capability is a key of the organisations. The item of every capability is a key of
  the items when every processed row that has an item id has an item name; the
  detailed item of every capability (and the detailed-item slot) is a key of the
  detailed items when every processed row whose detailed-item cell opens a group has a
  detailed-item name; the sector of every capability (and the sector slot) is a key of
  the sectors when every processed row that has a sector id has a sector name.
\<close>

theorem referential_integrity:
  assumes "process_csv F T rs = Inr st"
  shows "(\<forall>c \<in> set (capabilities st). cap_organisationId c \<in> dom (organisations st))
     \<and> ((\<forall>r \<in> set rs. item_named r) \<longrightarrow> item_refs_ok st)
     \<and> ((\<forall>r \<in> set rs. detailed_item_named r) \<longrightarrow> detailed_item_refs_ok st)
     \<and> ((\<forall>r \<in> set rs. sector_named r) \<longrightarrow> sector_refs_ok st)"
proof -
  from assms have p: "process_rows F T init_state rs = Inr st" by (simp add: process_csv_def)
  have "org_keys_ok st" by (rule process_rows_org_keys_ok [OF p org_keys_ok_init])
  then have 1: "\<forall>c \<in> set (capabilities st). cap_organisationId c \<in> dom (organisations st)"
    by (simp add: org_keys_ok_def)
  have 2: "(\<forall>r \<in> set rs. item_named r) \<longrightarrow> item_refs_ok st"
    using process_rows_invariant [of F T item_refs_ok item_named, OF process_row_item_refs_ok p]
    by (simp add: item_refs_ok_def init_state_def)
  have 3: "(\<forall>r \<in> set rs. detailed_item_named r) \<longrightarrow> detailed_item_refs_ok st"
    using process_rows_invariant [of F T detailed_item_refs_ok detailed_item_named,
        OF process_row_detailed_item_refs_ok p]
    by (simp add: detailed_item_refs_ok_def init_state_def)
  have 4: "(\<forall>r \<in> set rs. sector_named r) \<longrightarrow> sector_refs_ok st"
    using process_rows_invariant [of F T sector_refs_ok sector_named,
        OF process_row_sector_refs_ok p]
    by (simp add: sector_refs_ok_def init_state_def)
  from 1 2 3 4 show ?thesis by (intro conjI)
qed

text \<open>One row with a name beside each of its ids, and a capability label.\<close>

theorem referential_integrity_witness:
  "\<exists>st. process_csv digits_float nonzero [row_named] = Inr st
     \<and> map cap_organisationId (capabilities st) = [''X1''] \<and> ''X1'' \<in> dom (organisations st)
     \<and> map cap_itemId (capabilities st) = [Some ''I1''] \<and> ''I1'' \<in> dom (items st)
     \<and> map cap_detailedItemId (capabilities st) = [Some ''D1''] \<and> ''D1'' \<in> dom (detailed_items st)
     \<and> map cap_sectorMappingId (capabilities st) = [Some ''S1''] \<and> ''S1'' \<in> dom (sectors st)"
proof -
  obtain st where p: "process_csv digits_float nonzero [row_named] = Inr st"
    unfolding process_csv_def
    using process_rows_total [OF digits_float_errors, where rs = "[row_named]" and st = init_state
        and T = nonzero]
    by (auto simp: example_full_width)
  have n: "\<forall>r \<in> set [row_named]. item_named r" "\<forall>r \<in> set [row_named]. detailed_item_named r"
      "\<forall>r \<in> set [row_named]. sector_named r"
  proof -
    have "item_named row_named" by code_simp
    then show "\<forall>r \<in> set [row_named]. item_named r" by simp
    have "detailed_item_named row_named" by code_simp
    then show "\<forall>r \<in> set [row_named]. detailed_item_named r" by simp
    have "sector_named row_named" by code_simp
    then show "\<forall>r \<in> set [row_named]. sector_named r" by simp
  qed
  have "map_sum id (map cap_organisationId \<circ> capabilities)
          (process_csv digits_float nonzero [row_named]) = Inr [''X1'']" by code_simp
  then have c0: "map cap_organisationId (capabilities st) = [''X1'']" by (simp add: p)
  have "map_sum id (map cap_itemId \<circ> capabilities)
          (process_csv digits_float nonzero [row_named]) = Inr [Some ''I1'']" by code_simp
  then have c1: "map cap_itemId (capabilities st) = [Some ''I1'']" by (simp add: p)
  have "map_sum id (map cap_detailedItemId \<circ> capabilities)
          (process_csv digits_float nonzero [row_named]) = Inr [Some ''D1'']" by code_simp
  then have c2: "map cap_detailedItemId (capabilities st) = [Some ''D1'']" by (simp add: p)
  have "map_sum id (map cap_sectorMappingId \<circ> capabilities)
          (process_csv digits_float nonzero [row_named]) = Inr [Some ''S1'']" by code_simp
  then have c3: "map cap_sectorMappingId (capabilities st) = [Some ''S1'']" by (simp add: p)
  from c0 obtain c where c: "capabilities st = [c]" by auto
  note t = referential_integrity [OF p]
  from t [THEN conjunct1] c c0 have r0: "''X1'' \<in> dom (organisations st)" by simp
  from t [THEN conjunct2, THEN conjunct1] n(1) have "item_refs_ok st" by blast
  with c c1 have r1: "''I1'' \<in> dom (items st)" by (simp add: item_refs_ok_def)
  from t [THEN conjunct2, THEN conjunct2, THEN conjunct1] n(2) have "detailed_item_refs_ok st" by blast
  with c c2 have r2: "''D1'' \<in> dom (detailed_items st)" by (simp add: detailed_item_refs_ok_def)
  from t [THEN conjunct2, THEN conjunct2, THEN conjunct2] n(3) have "sector_refs_ok st" by blast
  with c c3 have r3: "''S1'' \<in> dom (sectors st)" by (simp add: sector_refs_ok_def)
  from p c0 c1 c2 c3 r0 r1 r2 r3 show ?thesis by (intro exI [of _ st] conjI)
qed

text \<open>
  One row with an item id, a detailed-item id and a sector id but no names: its
  capability stores the three ids, and none of them is a key of its collection.
\<close>

theorem dangling_references:
  "map_sum id (map cap_itemId \<circ> capabilities) (process_csv digits_float nonzero [row_unnamed])
     = Inr [Some ''I1'']
   \<and> map_sum id (at_key ''I1'' \<circ> items) (process_csv digits_float nonzero [row_unnamed]) = Inr None
   \<and> map_sum id (map cap_detailedItemId \<circ> capabilities) (process_csv digits_float nonzero [row_unnamed])
     = Inr [Some ''D1'']
   \<and> map_sum id (at_key ''D1'' \<circ> detailed_items) (process_csv digits_float nonzero [row_unnamed])
     = Inr None
   \<and> map_sum id (map cap_sectorMappingId \<circ> capabilities) (process_csv digits_float nonzero [row_unnamed])
     = Inr [Some ''S1'']
   \<and> map_sum id (at_key ''S1'' \<circ> sectors) (process_csv digits_float nonzero [row_unnamed]) = Inr None"
  by (intro conjI; code_simp)

lemma or_None_nonempty [simp]: "or_None s \<noteq> Some []"
  by (simp add: or_None_def)

lemma truthy_str_iff: "v \<noteq> Some [] \<Longrightarrow> truthy_str v \<longleftrightarrow> v \<noteq> None"
  by (cases v) (simp_all add: truthy_str_def)

lemma fields_nonempty_new: "fields_nonempty (new_organisation r k lat lon)"
  by (simp add: fields_nonempty_def new_organisation_def)

lemma fields_nonempty_update:
  "fields_nonempty e \<Longrightarrow> fields_nonempty (update_organisation T e r lat lon)"
  by (simp add: fields_nonempty_def update_organisation_def)

lemma org_keeps_update:
  "fields_nonempty e \<Longrightarrow> org_keeps T e (update_organisation T e r lat lon)"
  by (simp add: fields_nonempty_def org_keeps_def update_organisation_def truthy_str_iff)

lemma org_fills_update:
  "org_fills T r lat lon e (update_organisation T e r lat lon)"
  by (simp add: org_fills_def update_organisation_def truthy_str_def)

lemma org_keeps_refl: "org_keeps T e e"
  by (simp add: org_keeps_def)

lemma org_keeps_trans: "org_keeps T a b \<Longrightarrow> org_keeps T b c \<Longrightarrow> org_keeps T a c"
  unfolding org_keeps_def by (elim conjE, intro conjI) simp_all

lemma process_row_orgs_nonempty:
  assumes p: "process_row F T st r = Inr st'" and w: "orgs_nonempty st"
  shows "orgs_nonempty st'"
proof (cases "skipped r")
  case True
  with p w show ?thesis by (simp add: process_row_skipped)
next
  case False
  from process_row_organisations [OF p False] obtain lat lon where
    o: "organisations st' = (organisations st)(organisation_id r \<mapsto>
             (case organisations st (organisation_id r) of
                None \<Rightarrow> new_organisation r (organisation_id r) lat lon
              | Some existing \<Rightarrow> update_organisation T existing r lat lon))" by blast
  show ?thesis unfolding orgs_nonempty_def
  proof (intro allI impI)
    fix k e assume a: "organisations st' k = Some e"
    show "fields_nonempty e"
    proof (cases "k = organisation_id r")
      case True
      with a o w show ?thesis
        by (auto simp: orgs_nonempty_def fields_nonempty_new fields_nonempty_update split: option.splits)
    next
      case False
      with a o w show ?thesis by (auto simp: orgs_nonempty_def)
    qed
  qed
qed

lemma process_row_org_keeps:
  assumes p: "process_row F T st r = Inr st'" and w: "fields_nonempty e"
    and e: "organisations st k = Some e"
  shows "\<exists>e'. organisations st' k = Some e' \<and> org_keeps T e e'"
proof (cases "skipped r")
  case True
  with p e show ?thesis by (simp add: process_row_skipped org_keeps_refl)
next
  case False
  from process_row_organisations [OF p False] obtain lat lon where
    o: "organisations st' = (organisations st)(organisation_id r \<mapsto>
             (case organisations st (organisation_id r) of
                None \<Rightarrow> new_organisation r (organisation_id r) lat lon
              | Some existing \<Rightarrow> update_organisation T existing r lat lon))" by blast
  show ?thesis
  proof (cases "k = organisation_id r")
    case True
    with e o w show ?thesis by (simp add: org_keeps_update)
  next
    case False
    with e o show ?thesis by (simp add: org_keeps_refl)
  qed
qed

lemma process_rows_orgs_nonempty:
  "process_rows F T st rs = Inr st' \<Longrightarrow> orgs_nonempty st \<Longrightarrow> orgs_nonempty st'"
proof (induction rs arbitrary: st)
  case Nil
  then show ?case by simp
next
  case (Cons r rs)
  then show ?case by (auto split: sum.splits dest: process_row_orgs_nonempty)
qed

lemma process_rows_org_keeps:
  "process_rows F T st rs = Inr st' \<Longrightarrow> orgs_nonempty st \<Longrightarrow> organisations st k = Some e \<Longrightarrow>
     \<exists>e'. organisations st' k = Some e' \<and> org_keeps T e e'"
proof (induction rs arbitrary: st e)
  case Nil
  then show ?case by (simp add: org_keeps_refl)
next
  case (Cons r rs)
  from Cons.prems(1) obtain st1 where a: "process_row F T st r = Inr st1"
    and b: "process_rows F T st1 rs = Inr st'" by (auto split: sum.splits)
  from Cons.prems(2,3) have "fields_nonempty e" by (simp add: orgs_nonempty_def)
  from process_row_org_keeps [OF a this Cons.prems(3)] obtain e1 where
    e1: "organisations st1 k = Some e1" and k1: "org_keeps T e e1" by blast
  from process_row_orgs_nonempty [OF a Cons.prems(2)] have "orgs_nonempty st1" .
  from Cons.IH [OF b this e1] obtain e' where "organisations st' k = Some e'" "org_keeps T e1 e'"
    by blast
  with k1 show ?case by (blast intro: org_keeps_trans)
qed

lemma orgs_nonempty_init: "orgs_nonempty init_state"
  by (simp add: orgs_nonempty_def init_state_def)

text \<open>
  What the merge of lines 124-144 keeps. Let an organisation be stored under \<open>k\<close> after
  some rows of the file. Whatever rows follow, the record under \<open>k\<close> keeps its identifier, every
  string field that was present, and every coordinate that was present and not zero.
  A row for \<open>k\<close> that is not skipped fills each absent string field with its own
  stripped cell (absent when blank) and each coordinate that was absent or zero with
  its own coordinate when that is not zero.
\<close>

theorem organisation_merge_monotonic:
  assumes "process_csv F T rs = Inr st" and "organisations st k = Some e"
  shows "(\<forall>rs' st'. process_rows F T st rs' = Inr st' \<longrightarrow>
            (\<exists>e'. organisations st' k = Some e' \<and> org_keeps T e e'))
     \<and> (\<forall>r st'. process_row F T st r = Inr st' \<longrightarrow> \<not> skipped r \<longrightarrow> organisation_id r = k \<longrightarrow>
            (\<exists>e' lat lon. parse_coordinates F r = Inr (lat, lon)
               \<and> organisations st' k = Some e' \<and> org_fills T r lat lon e e'))"
proof (intro conjI allI impI)
  from assms(1) have p: "process_rows F T init_state rs = Inr st" by (simp add: process_csv_def)
  have w: "orgs_nonempty st" by (rule process_rows_orgs_nonempty [OF p orgs_nonempty_init])
  fix rs' st' assume "process_rows F T st rs' = Inr st'"
  from process_rows_org_keeps [OF this w assms(2)]
  show "\<exists>e'. organisations st' k = Some e' \<and> org_keeps T e e'" .
next
  fix r st' assume q: "process_row F T st r = Inr st'" and n: "\<not> skipped r"
    and k: "organisation_id r = k"
  from process_row_organisations [OF q n] obtain lat lon where
    c: "parse_coordinates F r = Inr (lat, lon)" and
    o: "organisations st' = (organisations st)(organisation_id r \<mapsto>
             (case organisations st (organisation_id r) of
                None \<Rightarrow> new_organisation r (organisation_id r) lat lon
              | Some existing \<Rightarrow> update_organisation T existing r lat lon))" by blast
  from o k assms(2) have "organisations st' k = Some (update_organisation T e r lat lon)" by simp
  with c org_fills_update [of T r lat lon e]
  show "\<exists>e' lat lon. parse_coordinates F r = Inr (lat, lon)
               \<and> organisations st' k = Some e' \<and> org_fills T r lat lon e e'" by blast
qed

lemma process_csv_single:
  "process_csv F T [r] = process_row F T init_state r"
  by (simp add: process_csv_def split: sum.splits)

text \<open>
  A second row for the same organisation with another name, a street and both
  coordinates: name and latitude stay, street and longitude are filled.
\<close>

theorem organisation_merge_monotonic_witness:
  "\<exists>st e st' e'. process_csv digits_float nonzero [row_org_first] = Inr st
     \<and> organisations st ''X1'' = Some e
     \<and> organisationName e = Some ''Acme'' \<and> billingStreet e = None
     \<and> latitude e = Some 5 \<and> longitude e = None
     \<and> process_row digits_float nonzero st row_org_second = Inr st'
     \<and> organisations st' ''X1'' = Some e'
     \<and> organisationName e' = Some ''Acme'' \<and> billingStreet e' = Some ''1 Main St''
     \<and> latitude e' = Some 5 \<and> longitude e' = Some 9"
proof -
  have f1: "\<not> skipped row_org_first" "organisation_id row_org_first = ''X1''"
      "parse_coordinates digits_float row_org_first = Inr (Some 5, None)"
      "strip (col_Organisation_Name row_org_first) = ''Acme''"
      "strip (col_Billing_Street row_org_first) = []"
    by code_simp+
  have f2: "\<not> skipped row_org_second" "organisation_id row_org_second = ''X1''"
      "parse_coordinates digits_float row_org_second = Inr (Some 7, Some 9)"
      "strip (col_Billing_Street row_org_second) = ''1 Main St''"
    by code_simp+
  obtain st where p1: "process_row digits_float nonzero init_state row_org_first = Inr st"
    using digits_row_total [where r = row_org_first and st = init_state]
    by (auto simp: example_full_width)
  then have p: "process_csv digits_float nonzero [row_org_first] = Inr st"
    by (simp add: process_csv_single)
  obtain st' where q: "process_row digits_float nonzero st row_org_second = Inr st'"
    using digits_row_total [where r = row_org_second and st = st]
    by (auto simp: example_full_width)
  then have q': "process_rows digits_float nonzero st [row_org_second] = Inr st'" by simp
  define e where "e = new_organisation row_org_first ''X1'' (Some (5::int)) None"
  from process_row_organisations [OF p1 f1(1)] f1(2,3)
  have o: "organisations st ''X1'' = Some e" by (simp add: init_state_def e_def)
  have e1: "organisationName e = Some ''Acme''" "billingStreet e = None"
      "latitude e = Some 5" "longitude e = None"
    by (simp_all add: e_def new_organisation_def f1 or_None_def)
  note t = organisation_merge_monotonic [OF p o]
  from t [THEN conjunct1] q' obtain e' where o': "organisations st' ''X1'' = Some e'"
    and k: "org_keeps nonzero e e'" by blast
  from t [THEN conjunct2] q f2(1,2) obtain e2 lat lon where
    c: "parse_coordinates digits_float row_org_second = Inr (lat, lon)"
    and o2: "organisations st' ''X1'' = Some e2" and fl: "org_fills nonzero row_org_second lat lon e e2"
    by blast
  from o' o2 have ee: "e2 = e'" by simp
  from c f2(3) have ll: "lat = Some 7" "lon = Some 9" by simp_all
  from k e1 have r1: "organisationName e' = Some ''Acme''" "latitude e' = Some 5"
    by (simp_all add: org_keeps_def truthy_float_def nonzero_def)
  from fl e1 have r2: "billingStreet e' = Some ''1 Main St''" "longitude e' = Some 9"
    by (simp_all add: org_fills_def ee ll f2 or_None_def truthy_float_def nonzero_def)
  from p o e1 q o' r1 r2 show ?thesis by blast
qed

text \<open>
  C1 at two rows of one organisation, with the latitudes 0 and 5. After the first row
  the record holds the latitude 0, a populated value (line 120 stores what was parsed);
  after the second it holds 5: the test of line 141 takes the stored zero for a missing
  value, and the populated field is overwritten.
\<close>

theorem zero_latitude_overwritten:
  "map_sum id (map_option latitude \<circ> at_key ''X1'' \<circ> organisations)
      (process_csv digits_float nonzero [row_lat_zero]) = Inr (Some (Some 0))
   \<and> organisation_id row_lat_five = ''X1''
   \<and> map_sum id (map_option latitude \<circ> at_key ''X1'' \<circ> organisations)
      (process_csv digits_float nonzero [row_lat_zero, row_lat_five]) = Inr (Some (Some 5))"
proof -
  have f1: "\<not> skipped row_lat_zero" "organisation_id row_lat_zero = ''X1''"
      "parse_coordinates digits_float row_lat_zero = Inr (Some 0, None)"
    by code_simp+
  have f2: "\<not> skipped row_lat_five" "organisation_id row_lat_five = ''X1''"
      "parse_coordinates digits_float row_lat_five = Inr (Some 5, None)"
    by code_simp+
  obtain s1 where p1: "process_row digits_float nonzero init_state row_lat_zero = Inr s1"
    using digits_row_total [where r = row_lat_zero and st = init_state]
    by (auto simp: example_full_width)
  obtain s2 where p2: "process_row digits_float nonzero s1 row_lat_five = Inr s2"
    using digits_row_total [where r = row_lat_five and st = s1]
    by (auto simp: example_full_width)
  from process_row_organisations [OF p1 f1(1)] f1(2,3)
  have o1: "organisations s1 ''X1'' = Some (new_organisation row_lat_zero ''X1'' (Some 0) None)"
    by (simp add: init_state_def)
  from process_row_organisations [OF p2 f2(1)] f2(2,3) o1
  have o2: "organisations s2 ''X1'' = Some (update_organisation nonzero
              (new_organisation row_lat_zero ''X1'' (Some 0) None) row_lat_five (Some 5) None)"
    by simp
  have l1: "map_option latitude (organisations s1 ''X1'') = Some (Some 0)"
    by (simp add: o1 new_organisation_def)
  have l2: "map_option latitude (organisations s2 ''X1'') = Some (Some 5)"
    by (simp add: o2 new_organisation_def update_organisation_def truthy_float_def nonzero_def)
  have r1: "process_csv digits_float nonzero [row_lat_zero] = Inr s1"
    by (simp add: process_csv_def p1)
  have r2: "process_csv digits_float nonzero [row_lat_zero, row_lat_five] = Inr s2"
    by (simp add: process_csv_def p1 p2)
  show ?thesis by (simp add: r1 r2 l1 l2 f2(2) at_key_def)
qed

lemma first_some_single [simp]: "first_some [x] = x"
  by (cases x) simp_all

lemma first_some_snoc:
  "first_some (xs @ [x]) = (case first_some xs of None \<Rightarrow> x | Some v \<Rightarrow> Some v)"
  by (induction xs rule: first_some.induct) (auto split: option.splits)

lemma first_some_in: "first_some xs = Some v \<Longrightarrow> Some v \<in> set xs"
  by (induction xs rule: first_some.induct) auto

lemma first_some_filter:
  "first_some xs = (case filter (\<lambda>x. x \<noteq> None) xs of [] \<Rightarrow> None | x # _ \<Rightarrow> x)"
  by (induction xs rule: first_some.induct) auto

lemma short_list_mset_eq:
  assumes "mset xs = mset ys" and "length xs \<le> 1"
  shows "xs = ys"
proof -
  from assms(1) have l: "length ys = length xs" by (metis size_mset)
  show ?thesis
  proof (cases xs)
    case Nil
    with assms(1) show ?thesis by simp
  next
    case (Cons a as)
    with assms(2) have as: "as = []" by simp
    with Cons l obtain b where ys: "ys = [b]" by (cases ys) auto
    with Cons as assms(1) show ?thesis by simp
  qed
qed

lemma first_some_perm:
  assumes "mset xs = mset ys" and "length (filter (\<lambda>x. x \<noteq> None) xs) \<le> 1"
  shows "first_some xs = first_some ys"
proof -
  from assms(1) have "mset (filter (\<lambda>x. x \<noteq> None) xs) = mset (filter (\<lambda>x. x \<noteq> None) ys)"
    by simp
  from short_list_mset_eq [OF this assms(2)] show ?thesis
    by (simp add: first_some_filter)
qed

lemma first_some_map_perm:
  assumes "mset rs' = mset rs" and "length (filter (\<lambda>r. f r \<noteq> None) rs) \<le> 1"
  shows "first_some (map f rs) = first_some (map f rs')"
proof (rule first_some_perm)
  from assms(1) show "mset (map f rs) = mset (map f rs')" by (metis mset_map)
  have "filter (\<lambda>x. x \<noteq> None) (map f rs) = map f (filter (\<lambda>r. f r \<noteq> None) rs)"
    by (simp add: filter_map o_def)
  with assms(2) show "length (filter (\<lambda>x. x \<noteq> None) (map f rs)) \<le> 1" by simp
qed

lemma length_filter_mono:
  assumes "\<And>x. P x \<Longrightarrow> Q x"
  shows "length (filter P xs) \<le> length (filter Q xs)"
proof (induction xs)
  case Nil
  show ?case by simp
next
  case (Cons x xs)
  then show ?case using assms by auto
qed

lemma lat_of_present:
  assumes "lat_of F r \<noteq> None"
  shows "strip ((cell_text \<circ> col_Latitude) r) \<noteq> []"
proof (cases "col_Latitude r")
  case None
  with assms show ?thesis by (simp add: lat_of_def parse_coordinates_def cell_strip_def)
next
  case (Some a)
  note a = Some
  show ?thesis
  proof (cases "col_Longitude r")
    case None
    with a assms show ?thesis by (simp add: lat_of_def parse_coordinates_def cell_strip_def)
  next
    case (Some b)
    from assms show ?thesis
      unfolding lat_of_def parse_coordinates_Some [OF a Some]
      by (cases "F (strip a)"; cases "F (strip b)")
         (auto simp: Let_def cell_text_def a split: if_splits)
  qed
qed

lemma lon_of_present:
  assumes "lon_of F r \<noteq> None"
  shows "strip ((cell_text \<circ> col_Longitude) r) \<noteq> []"
proof (cases "col_Latitude r")
  case None
  with assms show ?thesis by (simp add: lon_of_def parse_coordinates_def cell_strip_def)
next
  case (Some a)
  note a = Some
  show ?thesis
  proof (cases "col_Longitude r")
    case None
    with a assms show ?thesis by (simp add: lon_of_def parse_coordinates_def cell_strip_def)
  next
    case (Some b)
    from assms show ?thesis
      unfolding lon_of_def parse_coordinates_Some [OF a Some]
      by (cases "F (strip a)"; cases "F (strip b)")
         (auto simp: Let_def cell_text_def Some split: if_splits)
  qed
qed

lemma truthy_first_some:
  assumes "\<And>x. x \<in> set xs \<Longrightarrow> x \<noteq> Some []"
  shows "truthy_str (first_some xs) \<longleftrightarrow> first_some xs \<noteq> None"
proof (cases "first_some xs")
  case None
  then show ?thesis by (simp add: truthy_str_def)
next
  case (Some v)
  from first_some_in [OF Some] assms have "v \<noteq> []" by blast
  with Some show ?thesis by (simp add: truthy_str_def)
qed

lemma join_str_first_some:
  "(if \<not> truthy_str (first_some (map (\<lambda>r. or_None (strip (cell r))) rs))
    then or_None (strip (cell r))
    else first_some (map (\<lambda>r. or_None (strip (cell r))) rs))
   = first_some (map (\<lambda>r. or_None (strip (cell r))) (rs @ [r]))"
proof -
  have "truthy_str (first_some (map (\<lambda>r. or_None (strip (cell r))) rs))
        \<longleftrightarrow> first_some (map (\<lambda>r. or_None (strip (cell r))) rs) \<noteq> None"
    by (rule truthy_first_some) auto
  then show ?thesis by (auto simp: first_some_snoc split: option.splits)
qed

lemma join_float_first_some:
  assumes "\<And>x. x \<in> set xs \<Longrightarrow> x = None \<or> truthy_float T x" and "y = None \<or> truthy_float T y"
  shows "(if \<not> truthy_float T (first_some xs) \<and> truthy_float T y then y else first_some xs)
         = first_some (xs @ [y])"
proof (cases "first_some xs")
  case None
  with assms(2) show ?thesis by (auto simp: first_some_snoc truthy_float_def)
next
  case (Some v)
  from first_some_in [OF Some] assms(1) have "truthy_float T (Some v)" by blast
  with Some show ?thesis by (simp add: first_some_snoc)
qed

lemma update_merged:
  assumes "\<forall>r \<in> set rs. coordinates_nonzero F T r" and "coordinates_nonzero F T r"
  shows "update_organisation T (merged F k rs) r (lat_of F r) (lon_of F r) = merged F k (rs @ [r])"
proof -
  have la: "(if \<not> truthy_float T (first_some (map (lat_of F) rs)) \<and> truthy_float T (lat_of F r)
             then lat_of F r else first_some (map (lat_of F) rs))
            = first_some (map (lat_of F) rs @ [lat_of F r])"
    using assms by (intro join_float_first_some) (auto simp: coordinates_nonzero_def)
  have lo: "(if \<not> truthy_float T (first_some (map (lon_of F) rs)) \<and> truthy_float T (lon_of F r)
             then lon_of F r else first_some (map (lon_of F) rs))
            = first_some (map (lon_of F) rs @ [lon_of F r])"
    using assms by (intro join_float_first_some) (auto simp: coordinates_nonzero_def)
  show ?thesis
    unfolding update_organisation_def merged_def
    by (simp only: organisation.simps join_str_first_some la lo map_append list.map)
qed

lemma new_merged:
  "new_organisation r k (lat_of F r) (lon_of F r) = merged F k [r]"
  by (simp add: new_organisation_def merged_def)

lemma process_row_organisations_of:
  assumes "process_row F T st r = Inr st'" and "\<not> skipped r"
  shows "organisations st' = (organisations st)(organisation_id r \<mapsto>
             (case organisations st (organisation_id r) of
                None \<Rightarrow> new_organisation r (organisation_id r) (lat_of F r) (lon_of F r)
              | Some existing \<Rightarrow> update_organisation T existing r (lat_of F r) (lon_of F r)))"
proof -
  from process_row_organisations [OF assms] obtain lat lon where
    c: "parse_coordinates F r = Inr (lat, lon)" and
    o: "organisations st' = (organisations st)(organisation_id r \<mapsto>
             (case organisations st (organisation_id r) of
                None \<Rightarrow> new_organisation r (organisation_id r) lat lon
              | Some existing \<Rightarrow> update_organisation T existing r lat lon))" by blast
  from c have l: "lat = lat_of F r" and m: "lon = lon_of F r"
    by (simp_all add: lat_of_def lon_of_def)
  from o show ?thesis unfolding l m .
qed

lemma process_rows_merged:
  "process_rows F T st rs = Inr st' \<Longrightarrow>
   \<forall>r \<in> set rs0 \<union> set rs. coordinates_nonzero F T r \<Longrightarrow>
   \<forall>r \<in> set rs. \<not> skipped r \<and> organisation_id r = k \<Longrightarrow>
   organisations st k = Some (merged F k rs0) \<Longrightarrow>
   organisations st' k = Some (merged F k (rs0 @ rs))"
proof (induction rs arbitrary: st rs0)
  case Nil
  then show ?case by simp
next
  case (Cons r rs)
  from Cons.prems(1) obtain st1 where a: "process_row F T st r = Inr st1"
    and b: "process_rows F T st1 rs = Inr st'" by (auto split: sum.splits)
  from Cons.prems(3) have n: "\<not> skipped r" and k: "organisation_id r = k" by simp_all
  from Cons.prems(2) have z: "\<forall>x \<in> set rs0. coordinates_nonzero F T x" "coordinates_nonzero F T r"
    by simp_all
  from process_row_organisations_of [OF a n] k Cons.prems(4)
  have "organisations st1 k = Some (update_organisation T (merged F k rs0) r (lat_of F r) (lon_of F r))"
    by simp
  then have o1: "organisations st1 k = Some (merged F k (rs0 @ [r]))"
    by (simp add: update_merged [OF z])
  from Cons.prems(2) have z1: "\<forall>x \<in> set (rs0 @ [r]) \<union> set rs. coordinates_nonzero F T x" by auto
  from Cons.prems(3) have r1: "\<forall>x \<in> set rs. \<not> skipped x \<and> organisation_id x = k" by simp
  from Cons.IH [OF b z1 r1 o1] show ?case by simp
qed

lemma process_csv_merged:
  assumes p: "process_csv F T rs = Inr st" and ne: "rs \<noteq> []"
    and z: "\<forall>r \<in> set rs. coordinates_nonzero F T r"
    and ok: "\<forall>r \<in> set rs. \<not> skipped r \<and> organisation_id r = k"
  shows "organisations st = [k \<mapsto> merged F k rs]"
proof -
  from ne obtain r rs1 where rs: "rs = r # rs1" by (cases rs) auto
  from p rs obtain st1 where a: "process_row F T init_state r = Inr st1"
    and b: "process_rows F T st1 rs1 = Inr st" by (auto simp: process_csv_def split: sum.splits)
  from ok rs have n: "\<not> skipped r" and k: "organisation_id r = k" by simp_all
  from process_row_organisations_of [OF a n] k
  have o1: "organisations st1 k = Some (merged F k [r])"
    by (simp add: init_state_def new_merged)
  from z rs have z1: "\<forall>x \<in> set [r] \<union> set rs1. coordinates_nonzero F T x" by simp
  from ok rs have r1: "\<forall>x \<in> set rs1. \<not> skipped x \<and> organisation_id x = k" by simp
  from process_rows_merged [OF b z1 r1 o1] rs
  have o: "organisations st k = Some (merged F k rs)" by simp
  from p have "dom (organisations st) = organisation_id ` {r \<in> set rs. \<not> skipped r}"
    using process_rows_dom_organisations [of F T init_state rs st]
    by (simp add: process_csv_def init_state_def)
  also from ok ne have "\<dots> = {k}" by (cases rs) auto
  finally have d: "dom (organisations st) = {k}" .
  show ?thesis
  proof (rule ext)
    fix x show "organisations st x = [k \<mapsto> merged F k rs] x"
    proof (cases "x = k")
      case True
      with o show ?thesis by simp
    next
      case False
      with d have "x \<notin> dom (organisations st)" by simp
      with False show ?thesis by (simp add: domIff)
    qed
  qed
qed

lemma merged_perm:
  assumes m: "mset rs' = mset rs" and s: "single_source rs"
  shows "merged F k rs = merged F k rs'"
proof -
  have str: "\<And>cell. supplied_by_at_most_one cell rs \<Longrightarrow>
      first_some (map (\<lambda>r. or_None (strip (cell r))) rs)
      = first_some (map (\<lambda>r. or_None (strip (cell r))) rs')"
  proof -
    fix cell assume "supplied_by_at_most_one cell rs"
    then have "length (filter (\<lambda>r. or_None (strip (cell r)) \<noteq> None) rs) \<le> 1"
      by (simp add: supplied_by_at_most_one_def or_None_def)
    from first_some_map_perm [OF m this]
    show "first_some (map (\<lambda>r. or_None (strip (cell r))) rs)
      = first_some (map (\<lambda>r. or_None (strip (cell r))) rs')" .
  qed
  have la: "first_some (map (lat_of F) rs) = first_some (map (lat_of F) rs')"
  proof (rule first_some_map_perm [OF m])
    have "length (filter (\<lambda>r. lat_of F r \<noteq> None) rs)
          \<le> length (filter (\<lambda>r. strip ((cell_text \<circ> col_Latitude) r) \<noteq> []) rs)"
      by (rule length_filter_mono) (rule lat_of_present)
    with s show "length (filter (\<lambda>r. lat_of F r \<noteq> None) rs) \<le> 1"
      by (simp add: single_source_def supplied_by_at_most_one_def)
  qed
  have lo: "first_some (map (lon_of F) rs) = first_some (map (lon_of F) rs')"
  proof (rule first_some_map_perm [OF m])
    have "length (filter (\<lambda>r. lon_of F r \<noteq> None) rs)
          \<le> length (filter (\<lambda>r. strip ((cell_text \<circ> col_Longitude) r) \<noteq> []) rs)"
      by (rule length_filter_mono) (rule lon_of_present)
    with s show "length (filter (\<lambda>r. lon_of F r \<noteq> None) rs) \<le> 1"
      by (simp add: single_source_def supplied_by_at_most_one_def)
  qed
  from s have
    "supplied_by_at_most_one col_Organisation_Name rs"
    "supplied_by_at_most_one col_Billing_Street rs"
    "supplied_by_at_most_one col_Billing_City rs"
    "supplied_by_at_most_one col_Billing_State_Province rs"
    "supplied_by_at_most_one col_Billing_Zip_Postal_Code rs"
    "supplied_by_at_most_one col_Formatted_Address rs"
    by (simp_all add: single_source_def)
  then show ?thesis
    unfolding merged_def by (simp only: str la lo)
qed

text \<open>
  When the order of the rows does not matter. Let all rows of \<open>rs\<close> be processed rows of one normalised
  organisation id, let each fillable field be supplied (non-blank) by at most one of
  them, and let no row contribute a coordinate that is zero. Then a pass over any
  rearrangement \<open>rs'\<close> of the rows ends with the same organisations as the pass over
  \<open>rs\<close>.
\<close>

theorem organisation_merge_order_independent:
  assumes "\<forall>r \<in> set rs. \<not> skipped r \<and> organisation_id r = k"
    and "mset rs' = mset rs"
    and "single_source rs"
    and "\<forall>r \<in> set rs. coordinates_nonzero F T r"
    and "process_csv F T rs = Inr st" and "process_csv F T rs' = Inr st'"
  shows "organisations st' = organisations st"
proof (cases "rs = []")
  case True
  with assms(2) have "rs' = []" by simp
  with True assms(5,6) show ?thesis by (simp add: process_csv_def)
next
  case False
  with assms(2) have ne': "rs' \<noteq> []" by auto
  from assms(2) have e: "set rs' = set rs" by (metis set_mset_mset)
  from process_csv_merged [OF assms(5) False assms(4) assms(1)]
  have 1: "organisations st = [k \<mapsto> merged F k rs]" .
  from assms(1,4) e have "\<forall>r \<in> set rs'. coordinates_nonzero F T r"
    "\<forall>r \<in> set rs'. \<not> skipped r \<and> organisation_id r = k" by simp_all
  from process_csv_merged [OF assms(6) ne' this]
  have 2: "organisations st' = [k \<mapsto> merged F k rs']" .
  have "merged F k rs = merged F k rs'" by (rule merged_perm [OF assms(2,3)])
  with 1 2 show ?thesis by (simp only:)
qed

text \<open>Two rows of one organisation, one with name and latitude, one with street and longitude.\<close>

theorem organisation_merge_order_independent_witness:
  "\<exists>st st'. process_csv digits_float nonzero [row_src_name, row_src_street] = Inr st
     \<and> process_csv digits_float nonzero [row_src_street, row_src_name] = Inr st'
     \<and> organisations st' = organisations st
     \<and> map_option organisationName (organisations st ''X1'') = Some (Some ''Acme'')
     \<and> map_option longitude (organisations st ''X1'') = Some (Some 9)"
proof -
  obtain st where p: "process_csv digits_float nonzero [row_src_name, row_src_street] = Inr st"
    unfolding process_csv_def
    using process_rows_total [OF digits_float_errors, where rs = "[row_src_name, row_src_street]" and st = init_state
        and T = nonzero]
    by (auto simp: example_full_width)
  obtain st' where p': "process_csv digits_float nonzero [row_src_street, row_src_name] = Inr st'"
    unfolding process_csv_def
    using process_rows_total [OF digits_float_errors, where rs = "[row_src_street, row_src_name]" and st = init_state
        and T = nonzero]
    by (auto simp: example_full_width)
  have f: "\<not> skipped row_src_name" "organisation_id row_src_name = ''X1''"
      "\<not> skipped row_src_street" "organisation_id row_src_street = ''X1''"
      "coordinates_nonzero digits_float nonzero row_src_name"
      "coordinates_nonzero digits_float nonzero row_src_street"
    by code_simp+
  have s: "single_source [row_src_name, row_src_street]" by code_simp
  have ok: "\<forall>r \<in> set [row_src_name, row_src_street]. \<not> skipped r \<and> organisation_id r = ''X1''"
    using f by simp
  have z: "\<forall>r \<in> set [row_src_name, row_src_street]. coordinates_nonzero digits_float nonzero r"
    using f by simp
  have m: "mset [row_src_street, row_src_name] = mset [row_src_name, row_src_street]"
    by (simp add: add.commute)
  from organisation_merge_order_independent [OF ok m s z p p']
  have e: "organisations st' = organisations st" .
  have ne: "[row_src_name, row_src_street] \<noteq> []" by simp
  from process_csv_merged [OF p ne z ok]
  have o: "organisations st = [''X1'' \<mapsto> merged digits_float ''X1'' [row_src_name, row_src_street]]" .
  have n: "organisationName (merged digits_float ''X1'' [row_src_name, row_src_street]) = Some ''Acme''"
    by code_simp
  have l: "longitude (merged digits_float ''X1'' [row_src_name, row_src_street]) = Some 9"
    by code_simp
  from p p' e show ?thesis by (intro exI [of _ st] exI [of _ st'] conjI) (simp_all add: o n l)
qed

text \<open>
  C7 at two rows of one organisation, each fillable field supplied by at most one of
  them, the latitude by one row only, as zero. When that row comes first the record
  holds the latitude 0 (line 120); when it comes second the record holds no latitude
  (line 141 refuses a zero): the record depends on the order of the rows.
\<close>

theorem zero_latitude_order_dependent:
  "single_source [row_lat_zero, row_org_plain]
   \<and> organisation_id row_lat_zero = ''X1'' \<and> organisation_id row_org_plain = ''X1''
   \<and> map_sum id (map_option latitude \<circ> at_key ''X1'' \<circ> organisations)
        (process_csv digits_float nonzero [row_lat_zero, row_org_plain]) = Inr (Some (Some 0))
   \<and> map_sum id (map_option latitude \<circ> at_key ''X1'' \<circ> organisations)
        (process_csv digits_float nonzero [row_org_plain, row_lat_zero]) = Inr (Some None)"
proof -
  have s: "single_source [row_lat_zero, row_org_plain]" by code_simp
  have f1: "\<not> skipped row_lat_zero" "organisation_id row_lat_zero = ''X1''"
      "lat_of digits_float row_lat_zero = Some 0" "lon_of digits_float row_lat_zero = None"
    by code_simp+
  have f2: "\<not> skipped row_org_plain" "organisation_id row_org_plain = ''X1''"
      "lat_of digits_float row_org_plain = None" "lon_of digits_float row_org_plain = None"
    by code_simp+
  obtain a1 where p1: "process_row digits_float nonzero init_state row_lat_zero = Inr a1"
    using digits_row_total [where r = row_lat_zero and st = init_state]
    by (auto simp: example_full_width)
  obtain a2 where p2: "process_row digits_float nonzero a1 row_org_plain = Inr a2"
    using digits_row_total [where r = row_org_plain and st = a1]
    by (auto simp: example_full_width)
  obtain b1 where q1: "process_row digits_float nonzero init_state row_org_plain = Inr b1"
    using digits_row_total [where r = row_org_plain and st = init_state]
    by (auto simp: example_full_width)
  obtain b2 where q2: "process_row digits_float nonzero b1 row_lat_zero = Inr b2"
    using digits_row_total [where r = row_lat_zero and st = b1]
    by (auto simp: example_full_width)
  from process_row_organisations_of [OF p1 f1(1)] f1
  have oa1: "organisations a1 ''X1'' = Some (new_organisation row_lat_zero ''X1'' (Some 0) None)"
    by (simp add: init_state_def)
  from process_row_organisations_of [OF p2 f2(1)] f2 oa1
  have oa2: "organisations a2 ''X1'' = Some (update_organisation nonzero
              (new_organisation row_lat_zero ''X1'' (Some 0) None) row_org_plain None None)"
    by simp
  from process_row_organisations_of [OF q1 f2(1)] f2
  have ob1: "organisations b1 ''X1'' = Some (new_organisation row_org_plain ''X1'' None None)"
    by (simp add: init_state_def)
  from process_row_organisations_of [OF q2 f1(1)] f1 ob1
  have ob2: "organisations b2 ''X1'' = Some (update_organisation nonzero
              (new_organisation row_org_plain ''X1'' None None) row_lat_zero (Some 0) None)"
    by simp
  have la: "map_option latitude (organisations a2 ''X1'') = Some (Some 0)"
    by (simp add: oa2 new_organisation_def update_organisation_def truthy_float_def nonzero_def)
  have lb: "map_option latitude (organisations b2 ''X1'') = Some None"
    by (simp add: ob2 new_organisation_def update_organisation_def truthy_float_def nonzero_def)
  have ra: "process_csv digits_float nonzero [row_lat_zero, row_org_plain] = Inr a2"
    by (simp add: process_csv_def p1 p2)
  have rb: "process_csv digits_float nonzero [row_org_plain, row_lat_zero] = Inr b2"
    by (simp add: process_csv_def q1 q2)
  show ?thesis by (simp add: s f1(2) f2(2) ra rb la lb at_key_def)
qed

end
